theory Spec2Isabelle
  imports Main "HOL-Library.AList"
begin

section \<open>Data model of server.js\<close>

text \<open>
  The server keeps three registries (JavaScript \<open>Map\<close>s): \<open>lobbies\<close>, \<open>gameStates\<close> and
  \<open>disconnectedPlayers\<close>, and the image pool \<open>gameImages\<close>. A \<open>Map\<close> is an association
  list in insertion order: \<open>AList.update\<close> overwrites the value of a key that is present
  in place and appends a new key at the end, which is the order JavaScript keeps.

  Scope of the model: usernames, lobby codes and image identifiers are strings; the empty
  string stands for a falsy value (an unset field). The timer and the clock are integers.
\<close>

section \<open>Plain objects used as dictionaries\<close>

text \<open>
  The votes, the scores and the tallies are plain objects (\<open>{}\<close>) that the code indexes
  by a username or by an image identifier. Such an object is the association list of its
  own properties, in the order of their creation, and it inherits the properties of
  \<open>Object.prototype\<close>, whose names are listed in \<open>inherited\<close>.

  Reading \<open>obj[k]\<close> yields the own value of \<open>k\<close>; failing that, for an inherited name, a
  function (or \<open>Object.prototype\<close> itself, for \<open>__proto__\<close>), which is truthy and has
  none of the fields of a vote; and \<open>undefined\<close> otherwise.

  The assignment \<open>obj[k] = v\<close> of a number or a string overwrites the own property \<open>k\<close>
  or creates it at the end; but \<open>__proto__\<close>, when it is not an own property, is an
  inherited setter that ignores a value that is not an object, so nothing is stored.
\<close>

definition inherited :: "string \<Rightarrow> bool" where
  "inherited k =
     (k \<in> set [''constructor'', ''__defineGetter__'', ''__defineSetter__'', ''hasOwnProperty'',
               ''__lookupGetter__'', ''__lookupSetter__'', ''isPrototypeOf'',
               ''propertyIsEnumerable'', ''toString'', ''valueOf'', ''__proto__'',
               ''toLocaleString''])"

datatype 'a slot = Own 'a | Inherited | Absent

definition get_property :: "(string \<times> 'a) list \<Rightarrow> string \<Rightarrow> 'a slot" where
  "get_property obj k =
     (case map_of obj k of
        Some v \<Rightarrow> Own v
      | None \<Rightarrow> if inherited k then Inherited else Absent)"

definition set_property :: "string \<Rightarrow> 'a \<Rightarrow> (string \<times> 'a) list \<Rightarrow> (string \<times> 'a) list" where
  "set_property k v obj =
     (case map_of obj k of
        Some own \<Rightarrow> AList.update k v obj
      | None \<Rightarrow> if k = ''__proto__'' then obj else AList.update k v obj)"

text \<open>
  The value of a counter property (a tally entry or a score): a number, or the string
  that \<open>+ 1\<close> makes of an inherited function or object and of such a string again. That
  string is truthy, and \<open>count > maxVotes\<close> is false for it. \<open>plus_one\<close> is
  \<open>(obj[k] || 0) + 1\<close>.
\<close>

datatype counter = Number nat | Text

definition plus_one :: "counter slot \<Rightarrow> counter" where
  "plus_one x =
     (case x of
        Own (Number n) \<Rightarrow> Number (n + 1)
      | Own Text \<Rightarrow> Text
      | Inherited \<Rightarrow> Text
      | Absent \<Rightarrow> Number 1)"

section \<open>Lobbies and game states\<close>

record participant =
  username :: string
  isHost :: bool
  connected :: bool

record lobby =
  code :: string
  host :: string
  participants :: "participant list"
  createdAt :: int
  gameStarted :: bool

record vote =
  shoot :: string
  shag :: string
  marry :: string

text \<open>
  The game state object of the start-game handler. \<open>phase\<close> is the string the code
  stores; \<open>timerInterval\<close> is the handle returned by \<open>setInterval\<close>, or \<open>null\<close>.
\<close>

record game =
  phase :: string
  roundNumber :: nat
  totalRounds :: nat
  currentImages :: "string list"
  votes :: "(string \<times> vote) list"
  scores :: "(string \<times> counter) list"
  timer :: int
  timerInterval :: "nat option"

section \<open>calculateResults: tally, majority and points\<close>

definition truthy :: "string \<Rightarrow> bool" where
  "truthy s = (s \<noteq> [])"

text \<open>\<open>vote.shoot && vote.shag && vote.marry\<close>\<close>

definition complete_vote :: "vote \<Rightarrow> bool" where
  "complete_vote v = (truthy (shoot v) \<and> truthy (shag v) \<and> truthy (marry v))"

text \<open>\<open>counts[image] = (counts[image] || 0) + 1\<close>\<close>

definition bump :: "string \<Rightarrow> (string \<times> counter) list \<Rightarrow> (string \<times> counter) list" where
  "bump img counts = set_property img (plus_one (get_property counts img)) counts"

record categoryVotes =
  cv_shoot :: "(string \<times> counter) list"
  cv_shag :: "(string \<times> counter) list"
  cv_marry :: "(string \<times> counter) list"

text \<open>
  The body of \<open>lobby.participants.forEach\<close> in \<open>calculateResults\<close>: the accumulator is
  the pair of \<open>validVoters\<close> and \<open>categoryVotes\<close>. For a username that is an inherited
  name and has no recorded vote, \<open>vote\<close> is a function or an object without the three
  fields, and nothing is counted.
\<close>

definition count_participant ::
  "game \<Rightarrow> participant \<Rightarrow> string list \<times> categoryVotes \<Rightarrow> string list \<times> categoryVotes" where
  "count_participant g p acc =
     (if connected p then
        (case get_property (votes g) (username p) of
           Own v \<Rightarrow>
             if complete_vote v then
               (fst acc @ [username p],
                \<lparr>cv_shoot = bump (shoot v) (cv_shoot (snd acc)),
                 cv_shag = bump (shag v) (cv_shag (snd acc)),
                 cv_marry = bump (marry v) (cv_marry (snd acc))\<rparr>)
             else acc
         | Inherited \<Rightarrow> acc
         | Absent \<Rightarrow> acc)
      else acc)"

definition tally :: "lobby \<Rightarrow> game \<Rightarrow> string list \<times> categoryVotes" where
  "tally l g =
     fold (count_participant g) (participants l)
       ([], \<lparr>cv_shoot = [], cv_shag = [], cv_marry = []\<rparr>)"

text \<open>
  \<open>Object.entries\<close> lists the own keys of an object that are array indices (the canonical
  decimal numerals of the integers from 0 to \<open>2^32 - 2\<close>) first, in ascending numeric
  order, and the other string keys after them in the order in which they were created.
\<close>

definition is_digit :: "char \<Rightarrow> bool" where
  "is_digit c = (c \<in> set ''0123456789'')"

definition digits_value :: "string \<Rightarrow> nat" where
  "digits_value s = fold (\<lambda>c n. 10 * n + (of_char c - 48)) s 0"

definition is_array_index :: "string \<Rightarrow> bool" where
  "is_array_index s =
     (s \<noteq> [] \<and> list_all is_digit s \<and> (s = ''0'' \<or> hd s \<noteq> CHR ''0'')
      \<and> digits_value s < 2 ^ 32 - 1)"

definition object_entries :: "(string \<times> 'a) list \<Rightarrow> (string \<times> 'a) list" where
  "object_entries obj =
     sort_key (\<lambda>e. digits_value (fst e)) (filter (\<lambda>e. is_array_index (fst e)) obj)
     @ filter (\<lambda>e. \<not> is_array_index (fst e)) obj"

text \<open>
  The body of \<open>Object.entries(votes).forEach\<close>: the accumulator is the pair of
  \<open>maxVotes\<close> and \<open>majorityImage\<close>.
\<close>

definition majority_step ::
  "string \<times> counter \<Rightarrow> nat \<times> string option \<Rightarrow> nat \<times> string option" where
  "majority_step e acc =
     (case snd e of
        Number n \<Rightarrow> if n > fst acc then (n, Some (fst e)) else acc
      | Text \<Rightarrow> acc)"

definition majority :: "string list \<Rightarrow> (string \<times> counter) list \<Rightarrow> string option" where
  "majority images counts =
     (let majorityImage = snd (fold majority_step (object_entries counts) (0, None))
      in if (case majorityImage of None \<Rightarrow> True | Some i \<Rightarrow> \<not> truthy i) \<and> length images > 0
         then Some (hd images) else majorityImage)"

record majorityChoices =
  mc_shoot :: "string option"
  mc_shag :: "string option"
  mc_marry :: "string option"

definition majority_choices :: "lobby \<Rightarrow> game \<Rightarrow> majorityChoices" where
  "majority_choices l g =
     (let cv = snd (tally l g)
      in \<lparr>mc_shoot = majority (currentImages g) (cv_shoot cv),
          mc_shag = majority (currentImages g) (cv_shag cv),
          mc_marry = majority (currentImages g) (cv_marry cv)\<rparr>)"

text \<open>
  The body of \<open>validVoters.forEach\<close>: the accumulator is the triple of the scores,
  \<open>pointsAwarded\<close> and \<open>winners\<close>, and a point is
  \<open>scores[username] = (scores[username] || 0) + 1\<close>. A valid voter always has a recorded
  vote, so the other two branches are never taken.
\<close>

definition award ::
  "game \<Rightarrow> majorityChoices \<Rightarrow> string \<Rightarrow>
   (string \<times> counter) list \<times> nat \<times> string list \<Rightarrow>
   (string \<times> counter) list \<times> nat \<times> string list" where
  "award g mc u acc =
     (case get_property (votes g) u of
        Own v \<Rightarrow>
          if Some (shoot v) = mc_shoot mc \<and> Some (shag v) = mc_shag mc
             \<and> Some (marry v) = mc_marry mc
          then (case acc of (sc, pointsAwarded, winners) \<Rightarrow>
                  (bump u sc, pointsAwarded + 1, winners @ [u]))
          else acc
      | Inherited \<Rightarrow> acc
      | Absent \<Rightarrow> acc)"

definition award_points ::
  "lobby \<Rightarrow> game \<Rightarrow> (string \<times> counter) list \<times> nat \<times> string list" where
  "award_points l g =
     fold (award g (majority_choices l g)) (fst (tally l g)) (scores g, 0, [])"

section \<open>Registries, timers and scheduled callbacks\<close>

text \<open>
  Closures keep the game state object they captured alive after the registry has dropped
  or replaced it, so game state objects live in a store \<open>objects\<close> addressed by
  reference, and \<open>gameStates\<close> maps a lobby code to a reference. Lobby objects are only
  reached through the registry, so \<open>lobbies\<close> holds them by value.

  \<open>setTimeout\<close> and \<open>setInterval\<close> register a callback under a fresh handle. The
  callbacks of the source are closed terms over the lobby code (and, for the inner
  callback of \<open>showScoreboard\<close>, over the captured game state object).
\<close>

datatype callback =
    StartDiscussionPhase string
  | ShowScoreboard string
  | NextRound string nat

datatype continuation = ToVoting | ToResults

record interval =
  iv_code :: string
  iv_game :: nat
  iv_then :: continuation

record delayed =
  dl_delay :: nat
  dl_callback :: callback

record disconnect_record =
  dr_code :: string
  dr_timestamp :: int

record state =
  lobbies :: "(string \<times> lobby) list"
  gameStates :: "(string \<times> nat) list"
  objects :: "(nat \<times> game) list"
  disconnectedPlayers :: "(string \<times> disconnect_record) list"
  gameImages :: "string list"
  intervals :: "(nat \<times> interval) list"
  timeouts :: "(nat \<times> delayed) list"
  nextRef :: nat

text \<open>
  What a handler sends: a broadcast to the room of a lobby code (\<open>io.to(code).emit\<close>), the
  unicast \<open>error\<close> event to the sending socket, or the HTTP response of an API route.
\<close>

datatype message =
    LobbyUpdated string lobby
  | LobbyClosed string
  | GameStarted string lobby game
  | ImagesSelected string "string list"
  | GamePhaseUpdate string string "nat option"
  | GameTimer string int
  | RoundResults string majorityChoices nat nat "string list"
  | ScoreboardUpdate string "(string \<times> counter) list"
  | GameEnded string "(string \<times> counter) list"
  | ErrorEvent
  | HttpError nat
  | HttpCreated string lobby
  | HttpJoined lobby bool

definition init :: state where
  "init = \<lparr>lobbies = [], gameStates = [], objects = [], disconnectedPlayers = [],
           gameImages = [], intervals = [], timeouts = [], nextRef = 0\<rparr>"

text \<open>\<open>gameStates.get(code)\<close>: the reference and the object it points to.\<close>

definition get_game :: "state \<Rightarrow> string \<Rightarrow> (nat \<times> game) option" where
  "get_game s c =
     (case map_of (gameStates s) c of
        None \<Rightarrow> None
      | Some r \<Rightarrow> (case map_of (objects s) r of None \<Rightarrow> None | Some g \<Rightarrow> Some (r, g)))"

definition put_game :: "nat \<Rightarrow> game \<Rightarrow> state \<Rightarrow> state" where
  "put_game r g s = s\<lparr>objects := AList.update r g (objects s)\<rparr>"

text \<open>\<open>if (h) clearInterval(h)\<close>\<close>

definition clearInterval :: "nat option \<Rightarrow> state \<Rightarrow> state" where
  "clearInterval h s =
     (case h of None \<Rightarrow> s | Some i \<Rightarrow> s\<lparr>intervals := AList.delete i (intervals s)\<rparr>)"

definition setTimeout :: "callback \<Rightarrow> nat \<Rightarrow> state \<Rightarrow> state" where
  "setTimeout cb ms s =
     s\<lparr>timeouts := timeouts s @ [(nextRef s, \<lparr>dl_delay = ms, dl_callback = cb\<rparr>)],
       nextRef := nextRef s + 1\<rparr>"

text \<open>
  The image pool is rescanned by \<open>loadImages\<close>; the list of identifiers the scan yields is
  a parameter.
\<close>

definition loadImages :: "string list \<Rightarrow> state \<Rightarrow> state" where
  "loadImages imgs s = s\<lparr>gameImages := imgs\<rparr>"

text \<open>
  \<open>getRandomImages\<close>: the three values of \<open>Math.floor(Math.random() * gameImages.length)\<close>
  are the parameter \<open>rnd\<close>, reduced into the range of the indices.
\<close>

definition getRandomImages :: "string list \<Rightarrow> nat \<times> nat \<times> nat \<Rightarrow> string list" where
  "getRandomImages imgs rnd =
     (if length imgs < 3 then []
      else (case rnd of (i, j, k) \<Rightarrow>
              [imgs ! (i mod length imgs), imgs ! (j mod length imgs), imgs ! (k mod length imgs)]))"

section \<open>Game logic functions\<close>

definition startTimer :: "string \<Rightarrow> int \<Rightarrow> continuation \<Rightarrow> state \<Rightarrow> state" where
  "startTimer c seconds cb s =
     (case get_game s c of
        None \<Rightarrow> s
      | Some (r, g) \<Rightarrow>
          let s1 = clearInterval (timerInterval g) s;
              h = nextRef s1
          in put_game r (g\<lparr>timer := seconds, timerInterval := Some h\<rparr>)
               (s1\<lparr>intervals :=
                      AList.update h \<lparr>iv_code = c, iv_game = r, iv_then = cb\<rparr> (intervals s1),
                    nextRef := h + 1\<rparr>))"

definition endGame :: "string \<Rightarrow> state \<Rightarrow> state \<times> message list" where
  "endGame c s =
     (case get_game s c of
        None \<Rightarrow> (s, [])
      | Some (r, g) \<Rightarrow> (clearInterval (timerInterval g) s, [GameEnded c (scores g)]))"

definition startDiscussionPhase ::
  "string \<Rightarrow> nat \<times> nat \<times> nat \<Rightarrow> state \<Rightarrow> state \<times> message list" where
  "startDiscussionPhase c rnd s =
     (case get_game s c of
        None \<Rightarrow> (s, [])
      | Some (r, g) \<Rightarrow>
          (case map_of (lobbies s) c of
             None \<Rightarrow> (s, [])
           | Some l \<Rightarrow>
               if length (gameImages s) < 3 \<or> roundNumber g > totalRounds g then endGame c s
               else
                 let selectedImages = getRandomImages (gameImages s) rnd
                 in if length selectedImages < 3 then endGame c s
                    else
                      let g1 = g\<lparr>currentImages := selectedImages, phase := ''discussion'',
                                 votes := [], timer := 60\<rparr>;
                          s1 = clearInterval (timerInterval g1) (put_game r g1 s)
                      in (startTimer c 60 ToVoting s1,
                          [ImagesSelected c selectedImages,
                           GamePhaseUpdate c ''discussion'' (Some (roundNumber g1))])))"

definition startVotingPhase :: "string \<Rightarrow> state \<Rightarrow> state \<times> message list" where
  "startVotingPhase c s =
     (case get_game s c of
        None \<Rightarrow> (s, [])
      | Some (r, g) \<Rightarrow>
          (startTimer c 30 ToResults (put_game r (g\<lparr>phase := ''voting'', timer := 30\<rparr>) s),
           [GamePhaseUpdate c ''voting'' None]))"

definition calculateResults :: "string \<Rightarrow> state \<Rightarrow> state \<times> message list" where
  "calculateResults c s =
     (case get_game s c of
        None \<Rightarrow> (s, [])
      | Some (r, g) \<Rightarrow>
          (case map_of (lobbies s) c of
             None \<Rightarrow> (s, [])
           | Some l \<Rightarrow>
               (case award_points l g of
                  (sc, pointsAwarded, winners) \<Rightarrow>
                    (setTimeout (ShowScoreboard c) 5000
                       (put_game r (g\<lparr>scores := sc, phase := ''results''\<rparr>) s),
                     [GamePhaseUpdate c ''results'' None,
                      RoundResults c (majority_choices l g) pointsAwarded
                        (length (fst (tally l g))) winners]))))"

definition showScoreboard :: "string \<Rightarrow> state \<Rightarrow> state \<times> message list" where
  "showScoreboard c s =
     (case get_game s c of
        None \<Rightarrow> (s, [])
      | Some (r, g) \<Rightarrow>
          (setTimeout (NextRound c r) 5000 (put_game r (g\<lparr>phase := ''scoreboard''\<rparr>) s),
           [GamePhaseUpdate c ''scoreboard'' None, ScoreboardUpdate c (scores g)]))"

text \<open>
  The callback that \<open>showScoreboard\<close> schedules: it works on the game state object it
  captured, whatever the registry holds by then, while \<open>endGame\<close> and the next
  \<open>startDiscussionPhase\<close> look the code up again.
\<close>

definition nextRound :: "string \<Rightarrow> nat \<Rightarrow> state \<Rightarrow> state \<times> message list" where
  "nextRound c r s =
     (case map_of (objects s) r of
        None \<Rightarrow> (s, [])
      | Some g \<Rightarrow>
          let g1 = g\<lparr>roundNumber := roundNumber g + 1\<rparr>
          in if roundNumber g1 > totalRounds g1 then endGame c (put_game r g1 s)
             else (setTimeout (StartDiscussionPhase c) 3000
                     (put_game r (g1\<lparr>phase := ''waiting''\<rparr>) s),
                   [GamePhaseUpdate c ''waiting'' None]))"

text \<open>
  One run of the callback that \<open>startTimer\<close> registered under the handle \<open>h\<close>; a handle
  that was cleared never runs.
\<close>

definition tick :: "nat \<Rightarrow> state \<Rightarrow> state \<times> message list" where
  "tick h s =
     (case map_of (intervals s) h of
        None \<Rightarrow> (s, [])
      | Some iv \<Rightarrow>
          (case map_of (objects s) (iv_game iv) of
             None \<Rightarrow> (s, [])
           | Some g \<Rightarrow>
               let g1 = g\<lparr>timer := timer g - 1\<rparr>;
                   out = [GameTimer (iv_code iv) (timer g1)]
               in if timer g1 \<le> 0 then
                    let s1 = put_game (iv_game iv) (g1\<lparr>timerInterval := None\<rparr>)
                               (clearInterval (timerInterval g1) s);
                        res = (case iv_then iv of
                                 ToVoting \<Rightarrow> startVotingPhase (iv_code iv) s1
                               | ToResults \<Rightarrow> calculateResults (iv_code iv) s1)
                    in (fst res, out @ snd res)
                  else (put_game (iv_game iv) g1 s, out)))"

text \<open>The pending \<open>setTimeout\<close> callback with handle \<open>h\<close> fires, once.\<close>

definition fire :: "nat \<Rightarrow> nat \<times> nat \<times> nat \<Rightarrow> state \<Rightarrow> state \<times> message list" where
  "fire h rnd s =
     (case map_of (timeouts s) h of
        None \<Rightarrow> (s, [])
      | Some d \<Rightarrow>
          let s1 = s\<lparr>timeouts := AList.delete h (timeouts s)\<rparr>
          in (case dl_callback d of
                StartDiscussionPhase c \<Rightarrow> startDiscussionPhase c rnd s1
              | ShowScoreboard c \<Rightarrow> showScoreboard c s1
              | NextRound c r \<Rightarrow> nextRound c r s1))"

section \<open>API routes and socket handlers\<close>

text \<open>
  \<open>lobby.participants.find(p => p.username === username)\<close> yields the first participant
  of that name, and the handlers assign to its \<open>connected\<close> field.
\<close>

definition find_participant :: "string \<Rightarrow> participant list \<Rightarrow> participant option" where
  "find_participant u ps = List.find (\<lambda>p. username p = u) ps"

fun set_connected :: "string \<Rightarrow> bool \<Rightarrow> participant list \<Rightarrow> participant list" where
  "set_connected u b [] = []"
| "set_connected u b (p # ps) =
     (if username p = u then p\<lparr>connected := b\<rparr> # ps else p # set_connected u b ps)"

definition remove_participant :: "string \<Rightarrow> participant list \<Rightarrow> participant list" where
  "remove_participant u ps = filter (\<lambda>p. username p \<noteq> u) ps"

definition put_lobby :: "string \<Rightarrow> lobby \<Rightarrow> state \<Rightarrow> state" where
  "put_lobby c l s = s\<lparr>lobbies := AList.update c l (lobbies s)\<rparr>"

text \<open>\<open>lobby.participants.forEach(participant => { gameState.scores[participant.username] = 0; })\<close>\<close>

definition reset_scores ::
  "participant list \<Rightarrow> (string \<times> counter) list \<Rightarrow> (string \<times> counter) list" where
  "reset_scores ps sc = fold (\<lambda>p acc. set_property (username p) (Number 0) acc) ps sc"

text \<open>
  POST /api/lobby/create. The value of \<open>generateLobbyCode()\<close>, which is drawn from
  \<open>Math.random()\<close>, and the clock are parameters.
\<close>

definition api_create :: "string \<Rightarrow> int \<Rightarrow> string \<Rightarrow> state \<Rightarrow> state \<times> message list" where
  "api_create generated now u s =
     (if \<not> truthy u \<or> length u < 2 then (s, [HttpError 400])
      else
        let l = \<lparr>code = generated, host = u,
                 participants = [\<lparr>username = u, isHost = True, connected = True\<rparr>],
                 createdAt = now, gameStarted = False\<rparr>
        in (put_lobby generated l s, [HttpCreated generated l]))"

text \<open>POST /api/lobby/join\<close>

definition api_join :: "string \<Rightarrow> string \<Rightarrow> state \<Rightarrow> state \<times> message list" where
  "api_join c u s =
     (if \<not> truthy c \<or> \<not> truthy u then (s, [HttpError 400])
      else
        (case map_of (lobbies s) c of
           None \<Rightarrow> (s, [HttpError 404])
         | Some l \<Rightarrow>
             (case find_participant u (participants l) of
                Some existingParticipant \<Rightarrow>
                  let l1 = l\<lparr>participants := set_connected u True (participants l)\<rparr>
                  in (put_lobby c l1 s, [HttpJoined l1 True])
              | None \<Rightarrow>
                  let l1 = l\<lparr>participants :=
                              participants l @ [\<lparr>username = u, isHost = False, connected = True\<rparr>]\<rparr>;
                      s1 = put_lobby c l1 s;
                      s2 = (case get_game s1 c of
                              None \<Rightarrow> s1
                            | Some (r, g) \<Rightarrow>
                                put_game r (g\<lparr>scores := set_property u (Number 0) (scores g)\<rparr>) s1)
                  in (s2, [HttpJoined l1 False]))))"

text \<open>
  The socket handlers. A socket carries the attributes \<open>username\<close> and \<open>lobbyCode\<close> that
  its last join-lobby event stored, unchecked; the handlers that read them (restart-game
  and disconnect) take them as parameters, \<open>None\<close> when the socket never joined.
\<close>

definition join_lobby :: "string \<Rightarrow> string \<Rightarrow> state \<Rightarrow> state \<times> message list" where
  "join_lobby c u s =
     (case map_of (lobbies s) c of
        None \<Rightarrow> (s, [])
      | Some l \<Rightarrow>
          let l1 = l\<lparr>participants := set_connected u True (participants l)\<rparr>
          in (put_lobby c l1 s, [LobbyUpdated c l1]))"

text \<open>\<open>gameState && gameState.phase !== 'waiting'\<close>\<close>

definition mid_game :: "state \<Rightarrow> string \<Rightarrow> bool" where
  "mid_game s c = (case get_game s c of None \<Rightarrow> False | Some (r, g) \<Rightarrow> phase g \<noteq> ''waiting'')"

definition mark_disconnected :: "int \<Rightarrow> string \<Rightarrow> string \<Rightarrow> lobby \<Rightarrow> state \<Rightarrow> state \<times> lobby" where
  "mark_disconnected now c u l s =
     (let l1 = l\<lparr>participants := set_connected u False (participants l)\<rparr>
      in ((put_lobby c l1 s)
            \<lparr>disconnectedPlayers :=
               AList.update u \<lparr>dr_code = c, dr_timestamp = now\<rparr> (disconnectedPlayers s)\<rparr>, l1))"

definition delete_session :: "string \<Rightarrow> state \<Rightarrow> state" where
  "delete_session c s =
     s\<lparr>lobbies := AList.delete c (lobbies s), gameStates := AList.delete c (gameStates s)\<rparr>"

definition leave_lobby :: "int \<Rightarrow> string \<Rightarrow> string \<Rightarrow> state \<Rightarrow> state \<times> message list" where
  "leave_lobby now c u s =
     (case map_of (lobbies s) c of
        None \<Rightarrow> (s, [])
      | Some l \<Rightarrow>
          if mid_game s c then
            (case find_participant u (participants l) of
               Some participant \<Rightarrow>
                 (case mark_disconnected now c u l s of (s1, l1) \<Rightarrow> (s1, [LobbyUpdated c l1]))
             | None \<Rightarrow> (s, [LobbyUpdated c l]))
          else
            let l1 = l\<lparr>participants := remove_participant u (participants l)\<rparr>
            in if length (participants l1) = 0 \<or> u = host l
               then (delete_session c s, [LobbyClosed c])
               else (put_lobby c l1 s, [LobbyUpdated c l1]))"

definition start_game :: "string \<Rightarrow> string \<Rightarrow> state \<Rightarrow> state \<times> message list" where
  "start_game c u s =
     (case map_of (lobbies s) c of
        None \<Rightarrow> (s, [])
      | Some l \<Rightarrow>
          if host l = u \<and> length (participants l) \<ge> 2 then
            if length (gameImages s) < 3 then (s, [ErrorEvent])
            else
              let l1 = l\<lparr>gameStarted := True\<rparr>;
                  gameState = \<lparr>phase = ''discussion'', roundNumber = 1, totalRounds = 30,
                               currentImages = [], votes = [],
                               scores = reset_scores (participants l1) [],
                               timer = 60, timerInterval = None\<rparr>;
                  r = nextRef s;
                  s1 = (put_game r gameState (put_lobby c l1 s))
                         \<lparr>gameStates := AList.update c r (gameStates s), nextRef := r + 1\<rparr>
              in (setTimeout (StartDiscussionPhase c) 2000 s1, [GameStarted c l1 gameState])
          else (s, []))"

text \<open>
  cast-vote. \<open>!gameState.votes[username]\<close> holds only when the name has no recorded vote
  and is not an inherited name, for which the read yields a function or an object; so
  the assignment that follows creates an own property.
\<close>

definition cast_vote :: "string \<Rightarrow> string \<Rightarrow> vote \<Rightarrow> state \<Rightarrow> state \<times> message list" where
  "cast_vote c u v s =
     (case get_game s c of
        None \<Rightarrow> (s, [])
      | Some (r, g) \<Rightarrow>
          if phase g = ''voting''
             \<and> (case get_property (votes g) u of Absent \<Rightarrow> True | Own w \<Rightarrow> False | Inherited \<Rightarrow> False)
          then
            if complete_vote v then (put_game r (g\<lparr>votes := AList.update u v (votes g)\<rparr>) s, [])
            else (s, [])
          else (s, []))"

definition restart_game :: "string option \<Rightarrow> string \<Rightarrow> state \<Rightarrow> state \<times> message list" where
  "restart_game sock_username c s =
     (case map_of (lobbies s) c of
        None \<Rightarrow> (s, [])
      | Some l \<Rightarrow>
          (case get_game s c of
             None \<Rightarrow> (s, [])
           | Some (r, g) \<Rightarrow>
               if sock_username = Some (host l) then
                 if length (gameImages s) < 3 then (s, [ErrorEvent])
                 else
                   let g1 = g\<lparr>phase := ''discussion'', roundNumber := 1, currentImages := [],
                              votes := [], timer := 60\<rparr>;
                       g2 = g1\<lparr>scores := reset_scores (participants l) (scores g1)\<rparr>;
                       s1 = clearInterval (timerInterval g2) (put_game r g2 s)
                   in (setTimeout (StartDiscussionPhase c) 2000 s1, [GameStarted c l g2])
               else (s, [])))"

definition disconnect ::
  "string option \<Rightarrow> string option \<Rightarrow> int \<Rightarrow> state \<Rightarrow> state \<times> message list" where
  "disconnect sock_lobbyCode sock_username now s =
     (case (sock_lobbyCode, sock_username) of
        (Some c, Some u) \<Rightarrow>
          if truthy c \<and> truthy u then
            (case map_of (lobbies s) c of
               None \<Rightarrow> (s, [])
             | Some l \<Rightarrow>
                 (case find_participant u (participants l) of
                    None \<Rightarrow> (s, [])
                  | Some participant \<Rightarrow>
                      if mid_game s c then
                        (case mark_disconnected now c u l s of
                           (s1, l1) \<Rightarrow> (s1, [LobbyUpdated c l1]))
                      else
                        let l1 = l\<lparr>participants := remove_participant u (participants l)\<rparr>
                        in if length (participants l1) = 0 \<or> u = host l
                           then
                             let s1 = (case get_game s c of
                                         None \<Rightarrow> s
                                       | Some (r, g) \<Rightarrow> clearInterval (timerInterval g) s)
                             in (delete_session c s1, [LobbyClosed c])
                           else (put_lobby c l1 s, [LobbyUpdated c l1])))
          else (s, [])
      | _ \<Rightarrow> (s, []))"

text \<open>
  The cleanup interval: \<open>disconnectedPlayers.forEach\<close> visits every record once, in
  insertion order, and a visit may delete its own record.
\<close>

definition sweep_entry ::
  "int \<Rightarrow> string \<times> disconnect_record \<Rightarrow> state \<times> message list \<Rightarrow> state \<times> message list" where
  "sweep_entry now e acc =
     (let s = fst acc; u = fst e; d = snd e
      in if now - dr_timestamp d > 5 * 60 * 1000 then
           (case map_of (lobbies s) (dr_code d) of
              Some l \<Rightarrow>
                let l1 = l\<lparr>participants := remove_participant u (participants l)\<rparr>
                in ((put_lobby (dr_code d) l1 s)
                      \<lparr>disconnectedPlayers := AList.delete u (disconnectedPlayers s)\<rparr>,
                    snd acc @ [LobbyUpdated (dr_code d) l1])
            | None \<Rightarrow>
                (s\<lparr>disconnectedPlayers := AList.delete u (disconnectedPlayers s)\<rparr>, snd acc))
         else acc)"

definition sweep :: "int \<Rightarrow> state \<Rightarrow> state \<times> message list" where
  "sweep now s = fold (sweep_entry now) (disconnectedPlayers s) (s, [])"

section \<open>The server as a transition system\<close>

text \<open>
  Node runs one callback at a time, so a run of the server is a sequence of events, each
  handled to completion: a request, a socket event, the firing of a pending timeout or of
  a live interval, the cleanup sweep or a rescan of the image directory.
\<close>

datatype event =
    ApiCreate string int string
  | ApiJoin string string
  | JoinLobby string string
  | LeaveLobby int string string
  | StartGame string string
  | CastVote string string vote
  | RestartGame "string option" string
  | Disconnect "string option" "string option" int
  | Sweep int
  | LoadImages "string list"
  | Tick nat
  | Fire nat "nat \<times> nat \<times> nat"

fun handle :: "event \<Rightarrow> state \<Rightarrow> state \<times> message list" where
  "handle (ApiCreate generated now u) s = api_create generated now u s"
| "handle (ApiJoin c u) s = api_join c u s"
| "handle (JoinLobby c u) s = join_lobby c u s"
| "handle (LeaveLobby now c u) s = leave_lobby now c u s"
| "handle (StartGame c u) s = start_game c u s"
| "handle (CastVote c u v) s = cast_vote c u v s"
| "handle (RestartGame su c) s = restart_game su c s"
| "handle (Disconnect sc su now) s = disconnect sc su now s"
| "handle (Sweep now) s = sweep now s"
| "handle (LoadImages imgs) s = (loadImages imgs s, [])"
| "handle (Tick h) s = tick h s"
| "handle (Fire h rnd) s = fire h rnd s"

fun run :: "event list \<Rightarrow> state \<Rightarrow> state" where
  "run [] s = s"
| "run (e # es) s = run es (fst (handle e s))"

section \<open>Notions used to state the properties\<close>

text \<open>
  The votes that \<open>calculateResults\<close> counts, in the order of the roster
  (\<open>lobby.participants\<close>): the recorded vote of every connected participant whose vote
  sets all three categories.
\<close>

definition voter_vote :: "game \<Rightarrow> participant \<Rightarrow> vote list" where
  "voter_vote g p =
     (if connected p then
        (case map_of (votes g) (username p) of
           None \<Rightarrow> []
         | Some v \<Rightarrow> if complete_vote v then [v] else [])
      else [])"







text \<open>A lobby is registered under the code and has no participant of that name.\<close>

definition absent_from :: "string \<Rightarrow> string \<Rightarrow> state \<Rightarrow> bool" where
  "absent_from c u s =
     (case map_of (lobbies s) c of
        None \<Rightarrow> False
      | Some l \<Rightarrow> find_participant u (participants l) = None)"

text \<open>The \<open>connected\<close> flag of the participant of that name in the lobby, if both exist.\<close>

definition connected_in :: "string \<Rightarrow> string \<Rightarrow> state \<Rightarrow> bool option" where
  "connected_in c u s =
     (case map_of (lobbies s) c of
        None \<Rightarrow> None
      | Some l \<Rightarrow> map_option connected (find_participant u (participants l)))"




text \<open>
  The relation between two states in which every game state object is still there with
  the scores it had. And the relation in which every game state object is still there,
  and its scores are either what they were or what \<open>calculateResults\<close> makes of them
  for the round of a lobby whose registered game it is.
\<close>

definition scores_kept :: "state \<Rightarrow> state \<Rightarrow> bool" where
  "scores_kept s s' =
     (\<forall>r g. map_of (objects s) r = Some g \<longrightarrow>
        (\<exists>g'. map_of (objects s') r = Some g' \<and> scores g' = scores g))"

definition scores_kept_or_awarded :: "state \<Rightarrow> state \<Rightarrow> bool" where
  "scores_kept_or_awarded s s' =
     (\<forall>r g. map_of (objects s) r = Some g \<longrightarrow>
        (\<exists>g'. map_of (objects s') r = Some g'
           \<and> (scores g' = scores g
              \<or> (\<exists>c l. map_of (gameStates s) c = Some r \<and> map_of (lobbies s) c = Some l
                    \<and> scores g' = fst (award_points l g)))))"




text \<open>
  The events that write a record of departure for a name: leave-lobby and disconnect
  under that username, whatever the lobby. And the runs of the cleanup interval.
\<close>

definition leaves_as :: "string \<Rightarrow> event \<Rightarrow> bool" where
  "leaves_as u e =
     (case e of
        LeaveLobby now c u' \<Rightarrow> u' = u
      | Disconnect sc su now \<Rightarrow> su = Some u
      | _ \<Rightarrow> False)"

definition is_sweep :: "event \<Rightarrow> bool" where
  "is_sweep e = (case e of Sweep now \<Rightarrow> True | _ \<Rightarrow> False)"

text \<open>
  The events that replace or delete the record of a name: a leave-lobby or a disconnect
  under that username, and a cleanup sweep that finds the record older than five
  minutes.
\<close>

definition disturbs :: "string \<Rightarrow> disconnect_record \<Rightarrow> event \<Rightarrow> bool" where
  "disturbs u d e =
     (case e of
        LeaveLobby now c u' \<Rightarrow> u' = u
      | Disconnect sc su now \<Rightarrow> su = Some u
      | Sweep now \<Rightarrow> now - dr_timestamp d > 5 * 60 * 1000
      | _ \<Rightarrow> False)"

text \<open>The events that the timers raise, as opposed to the clients and the other intervals.\<close>

definition is_timer_event :: "event \<Rightarrow> bool" where
  "is_timer_event e = (case e of Tick h \<Rightarrow> True | Fire h rnd \<Rightarrow> True | _ \<Rightarrow> False)"

text \<open>The handles of the live countdown timers that tick for a lobby code.\<close>

definition live_timers :: "state \<Rightarrow> string \<Rightarrow> nat list" where
  "live_timers s c = map fst (filter (\<lambda>e. iv_code (snd e) = c) (intervals s))"




section \<open>Concrete inputs\<close>

definition images3 :: "string list" where
  "images3 = [''/images/a.png'', ''/images/b.png'', ''/images/c.png'']"

text \<open>
  A round in which bob voted before alice, while alice joined the lobby before bob:
  each of the first two categories is tied one to one.
\<close>

definition alice_vote :: vote where
  "alice_vote = \<lparr>shoot = ''/images/a.png'', shag = ''/images/b.png'', marry = ''/images/c.png''\<rparr>"




text \<open>A lobby of two in which no game was started, and no image loaded.\<close>

definition two_players :: state where
  "two_players = run [ApiCreate ''ABC123'' 0 ''hana'', ApiJoin ''ABC123'' ''piet''] init"


text \<open>Two requests to create a lobby for which \<open>generateLobbyCode\<close> returns the same code.\<close>

definition created_once :: state where
  "created_once = run [ApiCreate ''ABC123'' 0 ''hana''] init"

definition created_twice :: state where
  "created_twice = run [ApiCreate ''ABC123'' 0 ''hana'', ApiCreate ''ABC123'' 5 ''piet''] init"

text \<open>
  A game was started, and the image directory was emptied and rescanned before the
  two seconds of the pre-roll were over.
\<close>

definition images_gone :: state where
  "images_gone =
     run [LoadImages images3, ApiCreate ''ABC123'' 0 ''hana'', ApiJoin ''ABC123'' ''piet'',
          StartGame ''ABC123'' ''hana'', LoadImages []] init"

text \<open>
  The first round of a game of two, event by event in the order of the clock: the game
  starts, the discussion begins after the pre-roll (timeout 1) and its timer (interval
  2) ticks sixty times; both players cast the same vote while the voting timer
  (interval 3) runs; its thirtieth tick computes the results. \<open>voting_closes\<close> is the
  state before that last tick.
\<close>

definition first_discussion :: "event list" where
  "first_discussion =
     [LoadImages images3, ApiCreate ''ABC123'' 0 ''hana'', ApiJoin ''ABC123'' ''piet'',
      StartGame ''ABC123'' ''hana'', Fire 1 (0, 1, 2)]"

definition first_voting :: "event list" where
  "first_voting =
     first_discussion @ replicate 60 (Tick 2)
     @ [CastVote ''ABC123'' ''hana'' alice_vote, CastVote ''ABC123'' ''piet'' alice_vote]
     @ replicate 29 (Tick 3)"

definition voting_closes :: state where
  "voting_closes = run first_voting init"

text \<open>
  After the results (timeout 4 shows the scoreboard, timeout 5 moves on) the game is
  \<open>waiting\<close> for its second round, and piet leaves the lobby in these three seconds:
  hana, the host, is alone in the lobby of a registered game.
\<close>

definition first_round :: "event list" where
  "first_round = first_voting @ [Tick 3, Fire 4 (0, 0, 0), Fire 5 (0, 0, 0)]"

definition between_rounds :: state where
  "between_rounds = run first_round init"

definition host_alone :: state where
  "host_alone = run (first_round @ [LeaveLobby 103500 ''ABC123'' ''piet'']) init"



text \<open>The lobby and the game state of \<open>voting_closes\<close>.\<close>

definition lobby_hp :: lobby where
  "lobby_hp =
     \<lparr>code = ''ABC123'', host = ''hana'',
      participants = [\<lparr>username = ''hana'', isHost = True, connected = True\<rparr>,
                      \<lparr>username = ''piet'', isHost = False, connected = True\<rparr>],
      createdAt = 0, gameStarted = True\<rparr>"

definition game_voting :: game where
  "game_voting =
     \<lparr>phase = ''voting'', roundNumber = 1, totalRounds = 30, currentImages = images3,
      votes = [(''hana'', alice_vote), (''piet'', alice_vote)],
      scores = [(''hana'', Number 0), (''piet'', Number 0)], timer = 1, timerInterval = Some 3\<rparr>"

text \<open>
  Half a second into the first discussion hana, the host, leaves the game: she is marked
  disconnected, and the departure is on record.
\<close>

definition host_left :: state where
  "host_left = run (first_discussion @ [LeaveLobby 2500 ''ABC123'' ''hana'']) init"

text \<open>
  Half a second into the first discussion hana sends start-game again. The timer of
  the discussion ticks twice, and then the pre-roll of the second start is over (timeout
  4) and its discussion begins.
\<close>

definition started_twice :: state where
  "started_twice =
     run (first_discussion
          @ [StartGame ''ABC123'' ''hana'', Tick 2, Tick 2, Fire 4 (0, 1, 2)]) init"

text \<open>
  Hana restarts the game half a second after the results of the first round. The new
  discussion begins two seconds later (timeout 5, timer 6) while the callbacks of the
  old round are still due: the scoreboard (timeout 4) and the move to the next round
  (timeout 7), which sets the phase to \<open>waiting\<close>. Then hana leaves the lobby, which
  closes it.
\<close>

definition restart_in_results :: "event list" where
  "restart_in_results =
     first_voting
     @ [Tick 3, RestartGame (Some ''hana'') ''ABC123'', Fire 5 (0, 1, 2), Tick 6, Tick 6,
        Fire 4 (0, 0, 0), Tick 6, Tick 6, Tick 6, Tick 6, Tick 6, Fire 7 (0, 0, 0)]"

definition before_teardown :: state where
  "before_teardown = run restart_in_results init"

definition torn_down :: state where
  "torn_down = run (restart_in_results @ [LeaveLobby 102200 ''ABC123'' ''hana'']) init"

text \<open>
  Two lobbies, and a piet in each. Both games are started within the first second; the
  rescan of the image directory at 1.5 s (with the cleanup interval, which runs on the
  same minute) finds it empty, so both games end when their pre-roll is over (timeouts
  1 and 3) and no timer is live from then on, while the game states stay registered in
  phase \<open>discussion\<close>.
\<close>

definition two_lobbies :: "event list" where
  "two_lobbies =
     [LoadImages images3,
      ApiCreate ''ABC123'' 0 ''hana'', ApiJoin ''ABC123'' ''piet'',
      ApiCreate ''XYZ789'' 100 ''quin'', ApiJoin ''XYZ789'' ''piet'',
      StartGame ''ABC123'' ''hana'', StartGame ''XYZ789'' ''quin'',
      LoadImages [], Sweep 1500, Fire 1 (0, 1, 2), Fire 3 (0, 1, 2)]"

text \<open>
  At 4 s the piet of lobby ABC123 leaves the game: he is marked disconnected, and the
  departure is on record. A second later he joins again, and the cleanup interval runs
  every minute; \<open>piet_back\<close> is the state after its run at 301.5 s.
\<close>

definition piet_away :: state where
  "piet_away = run (two_lobbies @ [LeaveLobby 4000 ''ABC123'' ''piet'']) init"

definition piet_rejoined :: "event list" where
  "piet_rejoined =
     two_lobbies
     @ [LeaveLobby 4000 ''ABC123'' ''piet'', ApiJoin ''ABC123'' ''piet'', Sweep 61500]"

definition piet_back :: state where
  "piet_back =
     run (piet_rejoined
          @ [Sweep 121500, Sweep 181500, Sweep 241500, LoadImages [], Sweep 301500]) init"

text \<open>
  The same, except that at 100 s the piet of lobby XYZ789 leaves his game.
\<close>

definition namesake_left :: state where
  "namesake_left =
     run (piet_rejoined
          @ [LeaveLobby 100000 ''XYZ789'' ''piet'',
             Sweep 121500, Sweep 181500, Sweep 241500, LoadImages [], Sweep 301500]) init"

section \<open>What the primitive operations leave alone\<close>

lemma setTimeout_fields:
  "lobbies (setTimeout cb ms s) = lobbies s"
  "gameStates (setTimeout cb ms s) = gameStates s"
  "objects (setTimeout cb ms s) = objects s"
  "disconnectedPlayers (setTimeout cb ms s) = disconnectedPlayers s"
  "gameImages (setTimeout cb ms s) = gameImages s"
  "intervals (setTimeout cb ms s) = intervals s"
  "timeouts (setTimeout cb ms s) =
     timeouts s @ [(nextRef s, \<lparr>dl_delay = ms, dl_callback = cb\<rparr>)]"
  "nextRef (setTimeout cb ms s) = nextRef s + 1"
  by (simp_all add: setTimeout_def)

lemma clearInterval_fields:
  "lobbies (clearInterval h s) = lobbies s"
  "gameStates (clearInterval h s) = gameStates s"
  "objects (clearInterval h s) = objects s"
  "disconnectedPlayers (clearInterval h s) = disconnectedPlayers s"
  "gameImages (clearInterval h s) = gameImages s"
  "timeouts (clearInterval h s) = timeouts s"
  "nextRef (clearInterval h s) = nextRef s"
  by (simp_all add: clearInterval_def split: option.splits)

lemma put_game_fields:
  "lobbies (put_game r g s) = lobbies s"
  "gameStates (put_game r g s) = gameStates s"
  "objects (put_game r g s) = AList.update r g (objects s)"
  "disconnectedPlayers (put_game r g s) = disconnectedPlayers s"
  "gameImages (put_game r g s) = gameImages s"
  "intervals (put_game r g s) = intervals s"
  "timeouts (put_game r g s) = timeouts s"
  "nextRef (put_game r g s) = nextRef s"
  by (simp_all add: put_game_def)

lemma put_lobby_fields:
  "lobbies (put_lobby c l s) = AList.update c l (lobbies s)"
  "gameStates (put_lobby c l s) = gameStates s"
  "objects (put_lobby c l s) = objects s"
  "disconnectedPlayers (put_lobby c l s) = disconnectedPlayers s"
  "gameImages (put_lobby c l s) = gameImages s"
  "intervals (put_lobby c l s) = intervals s"
  "timeouts (put_lobby c l s) = timeouts s"
  "nextRef (put_lobby c l s) = nextRef s"
  by (simp_all add: put_lobby_def)

lemmas fields = setTimeout_fields clearInterval_fields put_game_fields put_lobby_fields

lemma get_game_frame:
  "get_game (clearInterval h s) c = get_game s c"
  "get_game (setTimeout cb ms s) c = get_game s c"
  "get_game (put_lobby c' l s) c = get_game s c"
  by (simp_all add: get_game_def fields cong: option.case_cong)

lemma get_game_put_game:
  "map_of (gameStates s) c = Some r \<Longrightarrow> get_game (put_game r g s) c = Some (r, g)"
  by (simp add: get_game_def put_game_def update_conv')

lemma get_game_ref: "get_game s c = Some (r, g) \<Longrightarrow> map_of (gameStates s) c = Some r"
  by (auto simp: get_game_def split: option.splits)

lemma get_game_obj: "get_game s c = Some (r, g) \<Longrightarrow> map_of (objects s) r = Some g"
  by (auto simp: get_game_def split: option.splits)

section \<open>The concrete states, evaluated\<close>

lemma run_append: "run (es @ fs) s = run fs (run es s)"
  by (induction es arbitrary: s) simp_all

lemma two_players_state:
  "two_players =
     \<lparr>lobbies =
        [(''ABC123'',
          \<lparr>code = ''ABC123'', host = ''hana'',
           participants = [\<lparr>username = ''hana'', isHost = True, connected = True\<rparr>,
                           \<lparr>username = ''piet'', isHost = False, connected = True\<rparr>],
           createdAt = 0, gameStarted = False\<rparr>)],
      gameStates = [], objects = [], disconnectedPlayers = [], gameImages = [],
      intervals = [], timeouts = [], nextRef = 0\<rparr>"
  by code_simp


lemma images_gone_state:
  "images_gone =
     \<lparr>lobbies =
        [(''ABC123'',
          \<lparr>code = ''ABC123'', host = ''hana'',
           participants = [\<lparr>username = ''hana'', isHost = True, connected = True\<rparr>,
                           \<lparr>username = ''piet'', isHost = False, connected = True\<rparr>],
           createdAt = 0, gameStarted = True\<rparr>)],
      gameStates = [(''ABC123'', 0)],
      objects =
        [(0, \<lparr>phase = ''discussion'', roundNumber = 1, totalRounds = 30,
              currentImages = [], votes = [], scores = [(''hana'', Number 0), (''piet'', Number 0)],
              timer = 60, timerInterval = None\<rparr>)],
      disconnectedPlayers = [], gameImages = [], intervals = [],
      timeouts = [(1, \<lparr>dl_delay = 2000, dl_callback = StartDiscussionPhase ''ABC123''\<rparr>)],
      nextRef = 2\<rparr>"
  by code_simp

lemma voting_closes_state:
  "voting_closes =
     \<lparr>lobbies = [(''ABC123'', lobby_hp)],
      gameStates = [(''ABC123'', 0)],
      objects = [(0, game_voting)],
      disconnectedPlayers = [],
      gameImages = [''/images/a.png'', ''/images/b.png'', ''/images/c.png''],
      intervals = [(3, \<lparr>iv_code = ''ABC123'', iv_game = 0, iv_then = ToResults\<rparr>)],
      timeouts = [], nextRef = 4\<rparr>"
  by code_simp

lemma between_rounds_state:
  "between_rounds =
     \<lparr>lobbies = [(''ABC123'', lobby_hp)],
      gameStates = [(''ABC123'', 0)],
      objects =
        [(0, \<lparr>phase = ''waiting'', roundNumber = 2, totalRounds = 30,
              currentImages = [''/images/a.png'', ''/images/b.png'', ''/images/c.png''],
              votes = [(''hana'', alice_vote), (''piet'', alice_vote)],
              scores = [(''hana'', Number 1), (''piet'', Number 1)], timer = 0, timerInterval = None\<rparr>)],
      disconnectedPlayers = [],
      gameImages = [''/images/a.png'', ''/images/b.png'', ''/images/c.png''],
      intervals = [],
      timeouts = [(6, \<lparr>dl_delay = 3000, dl_callback = StartDiscussionPhase ''ABC123''\<rparr>)],
      nextRef = 7\<rparr>"
proof -
  have "between_rounds = run [Tick 3, Fire 4 (0, 0, 0), Fire 5 (0, 0, 0)] voting_closes"
    by (simp add: between_rounds_def first_round_def voting_closes_def run_append)
  then show ?thesis unfolding voting_closes_state by code_simp
qed

lemma host_alone_state:
  "host_alone =
     \<lparr>lobbies =
        [(''ABC123'',
          \<lparr>code = ''ABC123'', host = ''hana'',
           participants = [\<lparr>username = ''hana'', isHost = True, connected = True\<rparr>],
           createdAt = 0, gameStarted = True\<rparr>)],
      gameStates = [(''ABC123'', 0)],
      objects =
        [(0, \<lparr>phase = ''waiting'', roundNumber = 2, totalRounds = 30,
              currentImages = [''/images/a.png'', ''/images/b.png'', ''/images/c.png''],
              votes = [(''hana'', alice_vote), (''piet'', alice_vote)],
              scores = [(''hana'', Number 1), (''piet'', Number 1)], timer = 0, timerInterval = None\<rparr>)],
      disconnectedPlayers = [],
      gameImages = [''/images/a.png'', ''/images/b.png'', ''/images/c.png''],
      intervals = [],
      timeouts = [(6, \<lparr>dl_delay = 3000, dl_callback = StartDiscussionPhase ''ABC123''\<rparr>)],
      nextRef = 7\<rparr>"
proof -
  have "host_alone = run [LeaveLobby 103500 ''ABC123'' ''piet''] between_rounds"
    by (simp add: host_alone_def between_rounds_def run_append)
  then show ?thesis unfolding between_rounds_state by code_simp
qed

lemma before_teardown_state:
  "before_teardown =
     \<lparr>lobbies = [(''ABC123'', lobby_hp)],
      gameStates = [(''ABC123'', 0)],
      objects =
        [(0, \<lparr>phase = ''waiting'', roundNumber = 2, totalRounds = 30,
              currentImages = [''/images/a.png'', ''/images/b.png'', ''/images/c.png''],
              votes = [], scores = [(''hana'', Number 0), (''piet'', Number 0)], timer = 53,
              timerInterval = Some 6\<rparr>)],
      disconnectedPlayers = [],
      gameImages = [''/images/a.png'', ''/images/b.png'', ''/images/c.png''],
      intervals = [(6, \<lparr>iv_code = ''ABC123'', iv_game = 0, iv_then = ToVoting\<rparr>)],
      timeouts = [(8, \<lparr>dl_delay = 3000, dl_callback = StartDiscussionPhase ''ABC123''\<rparr>)],
      nextRef = 9\<rparr>"
proof -
  have "before_teardown =
          run [Tick 3, RestartGame (Some ''hana'') ''ABC123'', Fire 5 (0, 1, 2), Tick 6, Tick 6,
               Fire 4 (0, 0, 0), Tick 6, Tick 6, Tick 6, Tick 6, Tick 6, Fire 7 (0, 0, 0)]
            voting_closes"
    by (simp add: before_teardown_def restart_in_results_def voting_closes_def run_append)
  then show ?thesis unfolding voting_closes_state by code_simp
qed

lemma piet_away_state:
  "piet_away =
     \<lparr>lobbies =
        [(''ABC123'',
          \<lparr>code = ''ABC123'', host = ''hana'',
           participants = [\<lparr>username = ''hana'', isHost = True, connected = True\<rparr>,
                           \<lparr>username = ''piet'', isHost = False, connected = False\<rparr>],
           createdAt = 0, gameStarted = True\<rparr>),
         (''XYZ789'',
          \<lparr>code = ''XYZ789'', host = ''quin'',
           participants = [\<lparr>username = ''quin'', isHost = True, connected = True\<rparr>,
                           \<lparr>username = ''piet'', isHost = False, connected = True\<rparr>],
           createdAt = 100, gameStarted = True\<rparr>)],
      gameStates = [(''ABC123'', 0), (''XYZ789'', 2)],
      objects =
        [(0, \<lparr>phase = ''discussion'', roundNumber = 1, totalRounds = 30,
              currentImages = [], votes = [],
              scores = [(''hana'', Number 0), (''piet'', Number 0)],
              timer = 60, timerInterval = None\<rparr>),
         (2, \<lparr>phase = ''discussion'', roundNumber = 1, totalRounds = 30,
              currentImages = [], votes = [],
              scores = [(''quin'', Number 0), (''piet'', Number 0)],
              timer = 60, timerInterval = None\<rparr>)],
      disconnectedPlayers = [(''piet'', \<lparr>dr_code = ''ABC123'', dr_timestamp = 4000\<rparr>)],
      gameImages = [], intervals = [], timeouts = [], nextRef = 4\<rparr>"
  by code_simp

lemma piet_rejoined_state:
  "run piet_rejoined init =
     \<lparr>lobbies =
        [(''ABC123'',
          \<lparr>code = ''ABC123'', host = ''hana'',
           participants = [\<lparr>username = ''hana'', isHost = True, connected = True\<rparr>,
                           \<lparr>username = ''piet'', isHost = False, connected = True\<rparr>],
           createdAt = 0, gameStarted = True\<rparr>),
         (''XYZ789'',
          \<lparr>code = ''XYZ789'', host = ''quin'',
           participants = [\<lparr>username = ''quin'', isHost = True, connected = True\<rparr>,
                           \<lparr>username = ''piet'', isHost = False, connected = True\<rparr>],
           createdAt = 100, gameStarted = True\<rparr>)],
      gameStates = [(''ABC123'', 0), (''XYZ789'', 2)],
      objects =
        [(0, \<lparr>phase = ''discussion'', roundNumber = 1, totalRounds = 30,
              currentImages = [], votes = [],
              scores = [(''hana'', Number 0), (''piet'', Number 0)],
              timer = 60, timerInterval = None\<rparr>),
         (2, \<lparr>phase = ''discussion'', roundNumber = 1, totalRounds = 30,
              currentImages = [], votes = [],
              scores = [(''quin'', Number 0), (''piet'', Number 0)],
              timer = 60, timerInterval = None\<rparr>)],
      disconnectedPlayers = [(''piet'', \<lparr>dr_code = ''ABC123'', dr_timestamp = 4000\<rparr>)],
      gameImages = [], intervals = [], timeouts = [], nextRef = 4\<rparr>"
proof -
  have "run piet_rejoined init = run [ApiJoin ''ABC123'' ''piet'', Sweep 61500] piet_away"
    by (simp add: piet_rejoined_def piet_away_def run_append)
  then show ?thesis unfolding piet_away_state by code_simp
qed

lemma piet_back_state:
  "piet_back =
     \<lparr>lobbies =
        [(''ABC123'',
          \<lparr>code = ''ABC123'', host = ''hana'',
           participants = [\<lparr>username = ''hana'', isHost = True, connected = True\<rparr>,
                           \<lparr>username = ''piet'', isHost = False, connected = True\<rparr>],
           createdAt = 0, gameStarted = True\<rparr>),
         (''XYZ789'',
          \<lparr>code = ''XYZ789'', host = ''quin'',
           participants = [\<lparr>username = ''quin'', isHost = True, connected = True\<rparr>,
                           \<lparr>username = ''piet'', isHost = False, connected = True\<rparr>],
           createdAt = 100, gameStarted = True\<rparr>)],
      gameStates = [(''ABC123'', 0), (''XYZ789'', 2)],
      objects =
        [(0, \<lparr>phase = ''discussion'', roundNumber = 1, totalRounds = 30,
              currentImages = [], votes = [],
              scores = [(''hana'', Number 0), (''piet'', Number 0)],
              timer = 60, timerInterval = None\<rparr>),
         (2, \<lparr>phase = ''discussion'', roundNumber = 1, totalRounds = 30,
              currentImages = [], votes = [],
              scores = [(''quin'', Number 0), (''piet'', Number 0)],
              timer = 60, timerInterval = None\<rparr>)],
      disconnectedPlayers = [(''piet'', \<lparr>dr_code = ''ABC123'', dr_timestamp = 4000\<rparr>)],
      gameImages = [], intervals = [], timeouts = [], nextRef = 4\<rparr>"
proof -
  have "piet_back =
          run [Sweep 121500, Sweep 181500, Sweep 241500, LoadImages [], Sweep 301500]
            (run piet_rejoined init)"
    by (simp add: piet_back_def run_append)
  then show ?thesis unfolding piet_rejoined_state by code_simp
qed

lemma namesake_left_state:
  "namesake_left =
     \<lparr>lobbies =
        [(''ABC123'',
          \<lparr>code = ''ABC123'', host = ''hana'',
           participants = [\<lparr>username = ''hana'', isHost = True, connected = True\<rparr>,
                           \<lparr>username = ''piet'', isHost = False, connected = True\<rparr>],
           createdAt = 0, gameStarted = True\<rparr>),
         (''XYZ789'',
          \<lparr>code = ''XYZ789'', host = ''quin'',
           participants = [\<lparr>username = ''quin'', isHost = True, connected = True\<rparr>,
                           \<lparr>username = ''piet'', isHost = False, connected = False\<rparr>],
           createdAt = 100, gameStarted = True\<rparr>)],
      gameStates = [(''ABC123'', 0), (''XYZ789'', 2)],
      objects =
        [(0, \<lparr>phase = ''discussion'', roundNumber = 1, totalRounds = 30,
              currentImages = [], votes = [],
              scores = [(''hana'', Number 0), (''piet'', Number 0)],
              timer = 60, timerInterval = None\<rparr>),
         (2, \<lparr>phase = ''discussion'', roundNumber = 1, totalRounds = 30,
              currentImages = [], votes = [],
              scores = [(''quin'', Number 0), (''piet'', Number 0)],
              timer = 60, timerInterval = None\<rparr>)],
      disconnectedPlayers = [(''piet'', \<lparr>dr_code = ''XYZ789'', dr_timestamp = 100000\<rparr>)],
      gameImages = [], intervals = [], timeouts = [], nextRef = 4\<rparr>"
proof -
  have "namesake_left =
          run [LeaveLobby 100000 ''XYZ789'' ''piet'',
               Sweep 121500, Sweep 181500, Sweep 241500, LoadImages [], Sweep 301500]
            (run piet_rejoined init)"
    by (simp add: namesake_left_def run_append)
  then show ?thesis unfolding piet_rejoined_state by code_simp
qed

section \<open>Reading and writing the properties of a plain object\<close>




section \<open>Tally order and ties in calculateResults\<close>


lemma count_participant_step:
  "count_participant g p (a, cv) =
     (a @ (if voter_vote g p = [] then [] else [username p]),
      \<lparr>cv_shoot = fold bump (map shoot (voter_vote g p)) (cv_shoot cv),
       cv_shag = fold bump (map shag (voter_vote g p)) (cv_shag cv),
       cv_marry = fold bump (map marry (voter_vote g p)) (cv_marry cv)\<rparr>)"
  by (simp add: count_participant_def voter_vote_def get_property_def split: option.splits)

lemma fold_count_participant:
  "fold (count_participant g) ps (a, cv) =
     (a @ concat (map (\<lambda>p. if voter_vote g p = [] then [] else [username p]) ps),
      \<lparr>cv_shoot = fold bump (map shoot (concat (map (voter_vote g) ps))) (cv_shoot cv),
       cv_shag = fold bump (map shag (concat (map (voter_vote g) ps))) (cv_shag cv),
       cv_marry = fold bump (map marry (concat (map (voter_vote g) ps))) (cv_marry cv)\<rparr>)"
proof (induction ps arbitrary: a cv)
  case Nil
  show ?case by simp
next
  case (Cons p ps)
  show ?case
    by (simp add: count_participant_step Cons.IH)
qed


lemma fst_tally:
  "fst (tally l g) =
     concat (map (\<lambda>p. if voter_vote g p = [] then [] else [username p]) (participants l))"
  by (simp add: tally_def fold_count_participant)













text \<open>
  Keys that are array indices are listed first whenever they were created: the order of
  the entries is the order of creation only among the other keys.
\<close>

lemma object_entries_index_keys_first:
  "object_entries [(''/images/b.png'', Number 1), (''10'', Number 1), (''9'', Number 1)] =
     [(''9'', Number 1), (''10'', Number 1), (''/images/b.png'', Number 1)]"
  by (simp add: object_entries_def is_array_index_def is_digit_def digits_value_def)








text \<open>
  An identifier that names an inherited property is never counted as a number: the
  tally stores a string for it (nothing for \<open>__proto__\<close>), and the majority goes to
  another choice.
\<close>

lemma tally_skips_inherited_names:
  "fold bump [''constructor'', ''__proto__'', ''/images/b.png'', ''constructor''] [] =
     [(''constructor'', Text), (''/images/b.png'', Number 1)]
   \<and> majority images3 [(''constructor'', Text), (''/images/b.png'', Number 1)] =
       Some ''/images/b.png''"
  by (simp add: bump_def set_property_def get_property_def plus_one_def inherited_def
      majority_def majority_step_def object_entries_def is_array_index_def is_digit_def
      truthy_def)




section \<open>Handlers that leave the game states alone\<close>

lemma mark_disconnected_objects: "objects (fst (mark_disconnected now c u l s)) = objects s"
  by (simp add: mark_disconnected_def Let_def fields)








section \<open>Timers and the roster\<close>

text \<open>Timers touch neither the lobbies nor the record of the departures.\<close>

lemma startTimer_roster:
  "lobbies (startTimer c n k s) = lobbies s"
  "disconnectedPlayers (startTimer c n k s) = disconnectedPlayers s"
  by (simp_all add: startTimer_def Let_def fields split: option.splits prod.splits)

lemma endGame_roster:
  "lobbies (fst (endGame c s)) = lobbies s"
  "disconnectedPlayers (fst (endGame c s)) = disconnectedPlayers s"
  by (simp_all add: endGame_def fields split: option.splits prod.splits)

lemma startVotingPhase_roster:
  "lobbies (fst (startVotingPhase c s)) = lobbies s"
  "disconnectedPlayers (fst (startVotingPhase c s)) = disconnectedPlayers s"
  by (simp_all add: startVotingPhase_def startTimer_roster fields split: option.splits prod.splits)

lemma startDiscussionPhase_roster:
  "lobbies (fst (startDiscussionPhase c rnd s)) = lobbies s"
  "disconnectedPlayers (fst (startDiscussionPhase c rnd s)) = disconnectedPlayers s"
  by (simp_all add: startDiscussionPhase_def Let_def startTimer_roster endGame_roster fields
      split: option.splits prod.splits)

lemma calculateResults_roster:
  "lobbies (fst (calculateResults c s)) = lobbies s"
  "disconnectedPlayers (fst (calculateResults c s)) = disconnectedPlayers s"
  by (simp_all add: calculateResults_def fields split: option.splits prod.splits)

lemma showScoreboard_roster:
  "lobbies (fst (showScoreboard c s)) = lobbies s"
  "disconnectedPlayers (fst (showScoreboard c s)) = disconnectedPlayers s"
  by (simp_all add: showScoreboard_def fields split: option.splits prod.splits)

lemma nextRound_roster:
  "lobbies (fst (nextRound c r s)) = lobbies s"
  "disconnectedPlayers (fst (nextRound c r s)) = disconnectedPlayers s"
  by (simp_all add: nextRound_def Let_def endGame_roster fields split: option.splits)

lemma tick_roster:
  "lobbies (fst (tick h s)) = lobbies s"
  "disconnectedPlayers (fst (tick h s)) = disconnectedPlayers s"
  by (simp_all add: tick_def Let_def startVotingPhase_roster calculateResults_roster fields
      split: option.splits continuation.splits)

lemma fire_roster:
  "lobbies (fst (fire h rnd s)) = lobbies s"
  "disconnectedPlayers (fst (fire h rnd s)) = disconnectedPlayers s"
  by (simp_all add: fire_def Let_def startDiscussionPhase_roster showScoreboard_roster
      nextRound_roster split: option.splits callback.splits)

lemma timer_events_roster:
  assumes "list_all is_timer_event es"
  shows "lobbies (run es s) = lobbies s \<and> disconnectedPlayers (run es s) = disconnectedPlayers s"
  using assms
proof (induction es arbitrary: s)
  case Nil
  show ?case by simp
next
  case (Cons e es)
  then have "lobbies (fst (handle e s)) = lobbies s
      \<and> disconnectedPlayers (fst (handle e s)) = disconnectedPlayers s"
    by (cases e) (simp_all add: is_timer_event_def tick_roster fire_roster)
  then show ?case using Cons by simp
qed

section \<open>The cleanup sweep\<close>

lemma find_participant_remove:
  "find_participant u (remove_participant u ps) = None"
  by (simp add: find_participant_def remove_participant_def find_None_iff)

lemma find_participant_remove_other:
  "find_participant u ps = None \<Longrightarrow> find_participant u (remove_participant v ps) = None"
  by (simp add: find_participant_def remove_participant_def find_None_iff)

lemma sweep_entry_keeps_lobby:
  "map_of (lobbies (fst acc)) c \<noteq> None \<Longrightarrow> map_of (lobbies (fst (sweep_entry now e acc))) c \<noteq> None"
  by (auto simp: sweep_entry_def Let_def fields update_conv' split: option.splits)

lemma sweep_entry_keeps_absent:
  "absent_from c u (fst acc) \<Longrightarrow> absent_from c u (fst (sweep_entry now e acc))"
  by (auto simp: sweep_entry_def absent_from_def Let_def fields update_conv'
      find_participant_remove_other split: option.splits)

lemma sweep_entry_removes:
  assumes "now - dr_timestamp d > 5 * 60 * 1000" and "map_of (lobbies (fst acc)) (dr_code d) \<noteq> None"
  shows "absent_from (dr_code d) u (fst (sweep_entry now (u, d) acc))"
  using assms
  by (auto simp: sweep_entry_def absent_from_def Let_def fields update_conv'
      find_participant_remove split: option.splits)

lemma fold_sweep_keeps_lobby:
  "map_of (lobbies (fst acc)) c \<noteq> None \<Longrightarrow>
   map_of (lobbies (fst (fold (sweep_entry now) es acc))) c \<noteq> None"
proof (induction es arbitrary: acc)
  case Nil
  then show ?case by simp
next
  case (Cons e es)
  show ?case using Cons.IH[OF sweep_entry_keeps_lobby[OF Cons.prems]] by simp
qed

lemma fold_sweep_keeps_absent:
  "absent_from c u (fst acc) \<Longrightarrow> absent_from c u (fst (fold (sweep_entry now) es acc))"
  by (induction es arbitrary: acc) (simp_all add: sweep_entry_keeps_absent)

lemma fold_sweep_removes:
  assumes "(u, d) \<in> set es" and "now - dr_timestamp d > 5 * 60 * 1000"
    and "map_of (lobbies (fst acc)) (dr_code d) \<noteq> None"
  shows "absent_from (dr_code d) u (fst (fold (sweep_entry now) es acc))"
  using assms
proof (induction es arbitrary: acc)
  case Nil
  then show ?case by simp
next
  case (Cons e es)
  show ?case
  proof (cases "e = (u, d)")
    case True
    have "absent_from (dr_code d) u (fst (sweep_entry now (u, d) acc))"
      using Cons.prems(2,3) by (rule sweep_entry_removes)
    then show ?thesis using True by (simp add: fold_sweep_keeps_absent)
  next
    case False
    then have "(u, d) \<in> set es" using Cons.prems(1) by simp
    moreover have "map_of (lobbies (fst (sweep_entry now e acc))) (dr_code d) \<noteq> None"
      using Cons.prems(3) by (rule sweep_entry_keeps_lobby)
    ultimately show ?thesis using Cons.IH Cons.prems(2) by simp
  qed
qed

lemma sweep_removes:
  assumes "map_of (disconnectedPlayers s) u = Some d" and "now - dr_timestamp d > 5 * 60 * 1000"
    and "map_of (lobbies s) (dr_code d) \<noteq> None"
  shows "absent_from (dr_code d) u (fst (sweep now s))"
  unfolding sweep_def
  using assms by (intro fold_sweep_removes) (auto dest: map_of_SomeD)

lemma find_set_connected:
  "find_participant u ps = Some p \<Longrightarrow>
   find_participant u (set_connected u b ps) = Some (p\<lparr>connected := b\<rparr>)"
  by (induction ps) (auto simp: find_participant_def)

section \<open>start-game without enough images\<close>

text \<open>
  Claim C9. When the host of a lobby with at least two participants sends start-game
  while fewer than three images are loaded, the handler answers with the unicast error
  event and returns before it touches anything: the state is the one before, so the
  game state registry has no new entry and the lobby's \<open>gameStarted\<close> flag is what it
  was.
\<close>

theorem start_game_too_few_images:
  assumes "map_of (lobbies s) c = Some l" and "host l = u"
    and "length (participants l) \<ge> 2" and "length (gameImages s) < 3"
  shows "start_game c u s = (s, [ErrorEvent])"
  using assms by (simp add: start_game_def)

theorem start_game_too_few_images_witness:
  "map_option gameStarted (map_of (lobbies two_players) ''ABC123'') = Some False
   \<and> length (gameImages two_players) < 3
   \<and> start_game ''ABC123'' ''hana'' two_players = (two_players, [ErrorEvent])
   \<and> get_game (fst (start_game ''ABC123'' ''hana'' two_players)) ''ABC123'' = None"
  using start_game_too_few_images[of two_players "''ABC123''"
      "the (map_of (lobbies two_players) ''ABC123'')" "''hana''"]
  by (simp add: two_players_state get_game_def)

section \<open>Lobby codes\<close>

text \<open>
  Claim C5, as the code has it. The create route stores the new lobby under whatever
  code \<open>generateLobbyCode\<close> returned; the code looks for no collision and draws no second
  code. Every lobby registered under another code keeps its entry, and a lobby that was
  registered under the generated code is replaced by the new one.
\<close>

theorem api_create_registers_generated_code:
  assumes "length u \<ge> 2"
  shows "map_of (lobbies (fst (api_create generated now u s))) =
           (map_of (lobbies s))
             (generated \<mapsto>
                \<lparr>code = generated, host = u,
                 participants = [\<lparr>username = u, isHost = True, connected = True\<rparr>],
                 createdAt = now, gameStarted = False\<rparr>)"
proof -
  have "truthy u" using assms by (auto simp: truthy_def)
  then show ?thesis using assms
    by (simp add: api_create_def put_lobby_def update_conv' Let_def)
qed

theorem api_create_registers_generated_code_witness:
  "length ''piet'' \<ge> 2
   \<and> map_of (lobbies (fst (api_create ''XYZ789'' 5 ''piet'' created_once))) ''ABC123'' =
       map_of (lobbies created_once) ''ABC123''
   \<and> map_option host (map_of (lobbies (fst (api_create ''XYZ789'' 5 ''piet'' created_once))) ''XYZ789'') =
       Some ''piet''"
  using api_create_registers_generated_code[of "''piet''" "''XYZ789''" 5 created_once]
  by simp

text \<open>
  Claim C5, as stated, fails: when the generator returns the code of a lobby that is
  alive, the second request overwrites hana's lobby with piet's, and one entry is left.
\<close>

theorem api_create_overwrites_on_collision:
  "map_option host (map_of (lobbies created_once) ''ABC123'') = Some ''hana''
   \<and> map_option host (map_of (lobbies created_twice) ''ABC123'') = Some ''piet''
   \<and> map fst (lobbies created_twice) = [''ABC123'']"
  by code_simp

section \<open>The guard of restart-game\<close>

text \<open>
  What restart-game checks. The request is accepted exactly when the lobby exists, a game
  state is registered for it, the username stored on the sending socket is the lobby's
  host and at least three images are loaded. A request without lobby, without game state
  or from another sender is ignored and changes nothing; with fewer than three images
  the sender gets the error event and nothing changes. An accepted request resets the
  round to 1 in \<open>discussion\<close>, clears the votes and the images, announces
  \<open>game-started\<close> and schedules the discussion phase after 2000 ms.
\<close>

lemma restart_game_guard:
  "(map_of (lobbies s) c = None \<longrightarrow> restart_game su c s = (s, []))
   \<and> (get_game s c = None \<longrightarrow> restart_game su c s = (s, []))
   \<and> (\<forall>l. map_of (lobbies s) c = Some l \<and> su \<noteq> Some (host l) \<longrightarrow>
         restart_game su c s = (s, []))
   \<and> (\<forall>l r g. map_of (lobbies s) c = Some l \<and> get_game s c = Some (r, g) \<and> su = Some (host l)
         \<and> length (gameImages s) < 3 \<longrightarrow> restart_game su c s = (s, [ErrorEvent]))
   \<and> (\<forall>l r g. map_of (lobbies s) c = Some l \<and> get_game s c = Some (r, g) \<and> su = Some (host l)
         \<and> length (gameImages s) \<ge> 3 \<longrightarrow>
         (\<exists>g'. snd (restart_game su c s) = [GameStarted c l g']
            \<and> get_game (fst (restart_game su c s)) c = Some (r, g')
            \<and> phase g' = ''discussion'' \<and> roundNumber g' = 1 \<and> votes g' = []
            \<and> currentImages g' = [] \<and> timer g' = 60
            \<and> timeouts (fst (restart_game su c s)) =
                timeouts s
                @ [(nextRef s, \<lparr>dl_delay = 2000, dl_callback = StartDiscussionPhase c\<rparr>)]))"
proof (intro conjI allI impI)
  show "restart_game su c s = (s, [])" if "map_of (lobbies s) c = None"
    using that by (simp add: restart_game_def)
  show "restart_game su c s = (s, [])" if "get_game s c = None"
    using that by (simp add: restart_game_def split: option.splits)
  show "restart_game su c s = (s, [])"
    if "map_of (lobbies s) c = Some l \<and> su \<noteq> Some (host l)" for l
    using that by (simp add: restart_game_def split: option.splits)
  show "restart_game su c s = (s, [ErrorEvent])"
    if "map_of (lobbies s) c = Some l \<and> get_game s c = Some (r, g) \<and> su = Some (host l)
         \<and> length (gameImages s) < 3" for l r g
    using that by (simp add: restart_game_def)
  show "\<exists>g'. snd (restart_game su c s) = [GameStarted c l g']
            \<and> get_game (fst (restart_game su c s)) c = Some (r, g')
            \<and> phase g' = ''discussion'' \<and> roundNumber g' = 1 \<and> votes g' = []
            \<and> currentImages g' = [] \<and> timer g' = 60
            \<and> timeouts (fst (restart_game su c s)) =
                timeouts s
                @ [(nextRef s, \<lparr>dl_delay = 2000, dl_callback = StartDiscussionPhase c\<rparr>)]"
    if h: "map_of (lobbies s) c = Some l \<and> get_game s c = Some (r, g) \<and> su = Some (host l)
         \<and> length (gameImages s) \<ge> 3" for l r g
  proof -
    from h have ref: "map_of (gameStates s) c = Some r" by (simp add: get_game_ref)
    show ?thesis using h ref
      by (simp add: restart_game_def Let_def get_game_frame get_game_put_game fields)
  qed
qed

lemma restart_game_guard_examples:
  "restart_game (Some ''piet'') ''ABC123'' host_alone = (host_alone, [])
   \<and> restart_game None ''ABC123'' host_alone = (host_alone, [])
   \<and> restart_game (Some ''hana'') ''ABC123'' two_players = (two_players, [])
   \<and> restart_game (Some ''hana'') ''ABC123'' images_gone = (images_gone, [ErrorEvent])
   \<and> timeouts (fst (restart_game (Some ''hana'') ''ABC123'' host_alone)) =
       [(6, \<lparr>dl_delay = 3000, dl_callback = StartDiscussionPhase ''ABC123''\<rparr>),
        (7, \<lparr>dl_delay = 2000, dl_callback = StartDiscussionPhase ''ABC123''\<rparr>)]"
proof -
  have g1: "get_game host_alone ''ABC123'' \<noteq> None" "get_game images_gone ''ABC123'' \<noteq> None"
    and g2: "get_game two_players ''ABC123'' = None"
    by (simp_all add: get_game_def host_alone_state images_gone_state two_players_state)
  show ?thesis
    using restart_game_guard[of host_alone "''ABC123''" "Some ''piet''"]
      restart_game_guard[of host_alone "''ABC123''" None]
      restart_game_guard[of two_players "''ABC123''" "Some ''hana''"]
      restart_game_guard[of images_gone "''ABC123''" "Some ''hana''"]
      restart_game_guard[of host_alone "''ABC123''" "Some ''hana''"]
      g1 g2
    by (auto simp: host_alone_state images_gone_state)
qed

text \<open>
  Claim C6 and the code. start-game refuses a lobby with fewer than two participants;
  restart-game has no check of the number of participants. After the first round piet
  left the lobby while the game was \<open>waiting\<close>, so hana is the only participant of her
  lobby; her restart-game is accepted all the same: it announces a new game and schedules
  its first discussion.
\<close>

theorem restart_game_with_one_participant:
  "map_option (length \<circ> participants) (map_of (lobbies host_alone) ''ABC123'') = Some 1
   \<and> snd (restart_game (Some ''hana'') ''ABC123'' host_alone) =
       [GameStarted ''ABC123''
          \<lparr>code = ''ABC123'', host = ''hana'',
           participants = [\<lparr>username = ''hana'', isHost = True, connected = True\<rparr>],
           createdAt = 0, gameStarted = True\<rparr>
          \<lparr>phase = ''discussion'', roundNumber = 1, totalRounds = 30, currentImages = [],
           votes = [], scores = [(''hana'', Number 0), (''piet'', Number 1)], timer = 60,
           timerInterval = None\<rparr>]
   \<and> map (dl_callback \<circ> snd) (timeouts (fst (restart_game (Some ''hana'') ''ABC123'' host_alone))) =
       [StartDiscussionPhase ''ABC123'', StartDiscussionPhase ''ABC123'']"
  unfolding host_alone_state by code_simp

section \<open>The end of a game\<close>







































section \<open>Reconnection and the cleanup sweep\<close>


lemma handlers_records:
  "disconnectedPlayers (fst (api_create gen now u s)) = disconnectedPlayers s"
  "disconnectedPlayers (fst (api_join c u s)) = disconnectedPlayers s"
  "disconnectedPlayers (fst (join_lobby c u s)) = disconnectedPlayers s"
  "disconnectedPlayers (fst (start_game c u s)) = disconnectedPlayers s"
  "disconnectedPlayers (fst (cast_vote c u v s)) = disconnectedPlayers s"
  "disconnectedPlayers (fst (restart_game su c s)) = disconnectedPlayers s"
  by (simp_all add: api_create_def api_join_def join_lobby_def start_game_def cast_vote_def
      restart_game_def Let_def fields split: option.splits prod.splits)

lemma delete_session_records: "disconnectedPlayers (delete_session c s) = disconnectedPlayers s"
  by (simp add: delete_session_def)

lemma mark_disconnected_record:
  "u' \<noteq> u \<Longrightarrow>
   map_of (disconnectedPlayers (fst (mark_disconnected now c u' l s))) u =
     map_of (disconnectedPlayers s) u"
  by (simp add: mark_disconnected_def Let_def fields update_conv')

lemma mark_disconnected_record_pair:
  assumes "u' \<noteq> u" and "mark_disconnected now c u' l s = (s1, l1)"
  shows "map_of (disconnectedPlayers s1) u = map_of (disconnectedPlayers s) u"
  using mark_disconnected_record[OF assms(1), of now c l s] assms(2) by simp

lemma leave_lobby_record:
  assumes "u' \<noteq> u"
  shows "map_of (disconnectedPlayers (fst (leave_lobby now c u' s))) u =
           map_of (disconnectedPlayers s) u"
  by (auto simp: leave_lobby_def Let_def fields delete_session_records
      mark_disconnected_record_pair[OF assms] split: option.splits prod.splits)

lemma disconnect_record:
  assumes "su \<noteq> Some u"
  shows "map_of (disconnectedPlayers (fst (disconnect sc su now s))) u =
           map_of (disconnectedPlayers s) u"
proof (cases su)
  case None
  then show ?thesis by (simp add: disconnect_def split: option.splits)
next
  case (Some u')
  then have ne: "u' \<noteq> u" using assms by simp
  show ?thesis unfolding Some
    by (auto simp: disconnect_def Let_def fields delete_session_records
        mark_disconnected_record_pair[OF ne] split: option.splits prod.splits)
qed

lemma handle_keeps_record:
  assumes "\<not> leaves_as u e" and "\<not> is_sweep e"
  shows "map_of (disconnectedPlayers (fst (handle e s))) u = map_of (disconnectedPlayers s) u"
proof (cases e)
  case (LeaveLobby now c u')
  then show ?thesis using assms by (simp add: leaves_as_def leave_lobby_record)
next
  case (Disconnect sc su now)
  then show ?thesis using assms by (simp add: leaves_as_def disconnect_record)
next
  case (Sweep now)
  then show ?thesis using assms by (simp add: is_sweep_def)
qed (simp_all add: handlers_records tick_roster fire_roster loadImages_def)

text \<open>A sweep leaves a record that has not expired.\<close>

lemma sweep_entry_keeps_record:
  assumes "fst e = u \<longrightarrow> \<not> now - dr_timestamp (snd e) > 5 * 60 * 1000"
  shows "map_of (disconnectedPlayers (fst (sweep_entry now e acc))) u =
           map_of (disconnectedPlayers (fst acc)) u"
  using assms
  by (auto simp: sweep_entry_def Let_def fields delete_conv' split: option.splits)

lemma fold_sweep_keeps_record:
  assumes "\<forall>e \<in> set es. fst e = u \<longrightarrow> \<not> now - dr_timestamp (snd e) > 5 * 60 * 1000"
  shows "map_of (disconnectedPlayers (fst (fold (sweep_entry now) es acc))) u =
           map_of (disconnectedPlayers (fst acc)) u"
  using assms
proof (induction es arbitrary: acc)
  case Nil
  show ?case by simp
next
  case (Cons e es)
  have "map_of (disconnectedPlayers (fst (sweep_entry now e acc))) u =
          map_of (disconnectedPlayers (fst acc)) u"
    using Cons.prems by (intro sweep_entry_keeps_record) simp
  then show ?case using Cons by simp
qed

lemma sweep_keeps_record:
  assumes "distinct (map fst (disconnectedPlayers s))"
    and "map_of (disconnectedPlayers s) u = Some d"
    and "now - dr_timestamp d \<le> 5 * 60 * 1000"
  shows "map_of (disconnectedPlayers (fst (sweep now s))) u = Some d"
proof -
  have "\<forall>e \<in> set (disconnectedPlayers s). fst e = u \<longrightarrow> \<not> now - dr_timestamp (snd e) > 5 * 60 * 1000"
  proof (intro ballI impI)
    fix e assume e: "e \<in> set (disconnectedPlayers s)" "fst e = u"
    then have "(u, snd e) \<in> set (disconnectedPlayers s)" by (metis prod.collapse)
    then have "map_of (disconnectedPlayers s) u = Some (snd e)"
      using assms(1) by (simp add: map_of_eq_Some_iff)
    then have "snd e = d" using assms(2) by simp
    then show "\<not> now - dr_timestamp (snd e) > 5 * 60 * 1000" using assms(3) by simp
  qed
  then show ?thesis using assms(2) by (simp add: sweep_def fold_sweep_keeps_record)
qed

text \<open>
  A sweep leaves a participant in the roster as they are unless a record for that name
  and that lobby has expired.
\<close>

lemma find_participant_remove_neq:
  "u' \<noteq> u \<Longrightarrow> find_participant u (remove_participant u' ps) = find_participant u ps"
  by (induction ps) (auto simp: find_participant_def remove_participant_def)

lemma sweep_entry_keeps_participant:
  assumes "\<not> (fst e = u \<and> dr_code (snd e) = c \<and> now - dr_timestamp (snd e) > 5 * 60 * 1000)"
  shows "connected_in c u (fst (sweep_entry now e acc)) = connected_in c u (fst acc)"
  using assms
  by (auto simp: sweep_entry_def connected_in_def Let_def fields update_conv'
      find_participant_remove_neq split: option.splits)

lemma fold_sweep_keeps_participant:
  assumes "list_all (\<lambda>e. \<not> (fst e = u \<and> dr_code (snd e) = c
                          \<and> now - dr_timestamp (snd e) > 5 * 60 * 1000)) es"
  shows "connected_in c u (fst (fold (sweep_entry now) es acc)) = connected_in c u (fst acc)"
  using assms
proof (induction es arbitrary: acc)
  case Nil
  show ?case by simp
next
  case (Cons e es)
  have "connected_in c u (fst (sweep_entry now e acc)) = connected_in c u (fst acc)"
    using Cons.prems by (intro sweep_entry_keeps_participant) simp
  then show ?case using Cons by simp
qed

lemma sweep_keeps_participant:
  assumes "list_all (\<lambda>e. \<not> (fst e = u \<and> dr_code (snd e) = c
                          \<and> now - dr_timestamp (snd e) > 5 * 60 * 1000)) (disconnectedPlayers s)"
  shows "connected_in c u (fst (sweep now s)) = connected_in c u s"
  using assms by (simp add: sweep_def fold_sweep_keeps_participant)

lemma join_sets_connected:
  "truthy c \<Longrightarrow> truthy u \<Longrightarrow> connected_in c u s \<noteq> None \<Longrightarrow>
   connected_in c u (fst (api_join c u s)) = Some True"
  "connected_in c u s \<noteq> None \<Longrightarrow> connected_in c u (fst (join_lobby c u s)) = Some True"
  by (auto simp: api_join_def join_lobby_def connected_in_def Let_def fields update_conv'
      find_set_connected split: option.splits)

text \<open>The names on record stay distinct.\<close>

lemma mark_disconnected_distinct:
  assumes "distinct (map fst (disconnectedPlayers s))" and "mark_disconnected now c u l s = (s1, l1)"
  shows "distinct (map fst (disconnectedPlayers s1))"
proof -
  have "disconnectedPlayers s1 =
          AList.update u \<lparr>dr_code = c, dr_timestamp = now\<rparr> (disconnectedPlayers s)"
    using assms(2) by (auto simp: mark_disconnected_def Let_def fields)
  then show ?thesis using assms(1) by (simp add: distinct_update)
qed

lemma sweep_entry_distinct:
  "distinct (map fst (disconnectedPlayers (fst acc))) \<Longrightarrow>
   distinct (map fst (disconnectedPlayers (fst (sweep_entry now e acc))))"
  by (auto simp: sweep_entry_def Let_def fields distinct_delete split: option.splits)

lemma sweep_distinct:
  assumes "distinct (map fst (disconnectedPlayers s))"
  shows "distinct (map fst (disconnectedPlayers (fst (sweep now s))))"
proof -
  have "distinct (map fst (disconnectedPlayers (fst acc))) \<Longrightarrow>
        distinct (map fst (disconnectedPlayers (fst (fold (sweep_entry now) es acc))))" for es acc
    by (induction es arbitrary: acc) (simp_all add: sweep_entry_distinct)
  then show ?thesis using assms by (simp add: sweep_def)
qed

lemma handle_distinct_records:
  assumes "distinct (map fst (disconnectedPlayers s))"
  shows "distinct (map fst (disconnectedPlayers (fst (handle e s))))"
proof (cases e)
  case (LeaveLobby now c u)
  then show ?thesis using assms
    by (auto simp: leave_lobby_def Let_def fields delete_session_records
        mark_disconnected_distinct split: option.splits prod.splits)
next
  case (Disconnect sc su now)
  then show ?thesis using assms
    by (auto simp: disconnect_def Let_def fields delete_session_records
        mark_disconnected_distinct split: option.splits prod.splits)
next
  case (Sweep now)
  then show ?thesis using assms by (simp add: sweep_distinct)
qed (use assms in \<open>simp_all add: handlers_records tick_roster fire_roster loadImages_def\<close>)

lemma run_keeps_record:
  assumes "list_all (\<lambda>e. \<not> disturbs u d e) es"
    and "distinct (map fst (disconnectedPlayers s))"
    and "map_of (disconnectedPlayers s) u = Some d"
  shows "map_of (disconnectedPlayers (run es s)) u = Some d"
  using assms
proof (induction es arbitrary: s)
  case Nil
  then show ?case by simp
next
  case (Cons e es)
  have nd: "\<not> disturbs u d e" using Cons.prems(1) by simp
  have 1: "map_of (disconnectedPlayers (fst (handle e s))) u = Some d"
  proof (cases "is_sweep e")
    case True
    then obtain now where e: "e = Sweep now" by (cases e) (simp_all add: is_sweep_def)
    then have "now - dr_timestamp d \<le> 5 * 60 * 1000" using nd by (simp add: disturbs_def)
    then show ?thesis using e Cons.prems(2,3) by (simp add: sweep_keeps_record)
  next
    case False
    moreover have "\<not> leaves_as u e"
      using nd by (cases e) (simp_all add: disturbs_def leaves_as_def)
    ultimately show ?thesis using Cons.prems(3) by (simp add: handle_keeps_record)
  qed
  have 2: "distinct (map fst (disconnectedPlayers (fst (handle e s))))"
    using Cons.prems(2) by (rule handle_distinct_records)
  show ?case using Cons.IH[OF _ 2 1] Cons.prems(1) by simp
qed

text \<open>
  Claim C10, as the code has it. A reconnection, by the join route or by the join-lobby
  event, leaves \<open>disconnectedPlayers\<close> as it is and sets \<open>connected\<close> to true for a
  name that is in the roster. The record of a name is keyed by the name alone: every
  event leaves it as it is except a leave-lobby or a disconnect under the same username,
  in whatever lobby, and the cleanup sweep; and a sweep leaves a record that has not
  expired (the names on record being distinct, as they are in a \<open>Map\<close>). A sweep that
  finds a record older than five minutes removes the name from the roster of the lobby
  that the record names, if that lobby exists, connected or not. And a sweep leaves a
  participant as they are in a roster unless a record for that name and that lobby has
  expired. So, from a state that has the departure on record, after any run of events
  (reconnections among them) none of which is a leave-lobby or a disconnect under that
  username or a sweep that finds the record expired, the record is on file as it was,
  and a sweep more than five minutes after the recorded time removes the name from
  the roster of the lobby, if that still exists.
\<close>

theorem reconnection_keeps_the_record:
  "disconnectedPlayers (fst (api_join c u s)) = disconnectedPlayers s
   \<and> disconnectedPlayers (fst (join_lobby c u s)) = disconnectedPlayers s
   \<and> (truthy c \<and> truthy u \<and> connected_in c u s \<noteq> None \<longrightarrow>
         connected_in c u (fst (api_join c u s)) = Some True)
   \<and> (connected_in c u s \<noteq> None \<longrightarrow> connected_in c u (fst (join_lobby c u s)) = Some True)
   \<and> (\<not> leaves_as u e \<and> \<not> is_sweep e \<longrightarrow>
         map_of (disconnectedPlayers (fst (handle e s))) u = map_of (disconnectedPlayers s) u)
   \<and> (\<forall>d. distinct (map fst (disconnectedPlayers s)) \<and> map_of (disconnectedPlayers s) u = Some d
         \<and> now - dr_timestamp d \<le> 5 * 60 * 1000 \<longrightarrow>
         map_of (disconnectedPlayers (fst (sweep now s))) u = Some d)
   \<and> (\<forall>d. map_of (disconnectedPlayers s) u = Some d \<and> now - dr_timestamp d > 5 * 60 * 1000
         \<and> map_of (lobbies s) (dr_code d) \<noteq> None \<longrightarrow>
         absent_from (dr_code d) u (fst (sweep now s)))
   \<and> (list_all (\<lambda>r. \<not> (fst r = u \<and> dr_code (snd r) = c
                         \<and> now - dr_timestamp (snd r) > 5 * 60 * 1000)) (disconnectedPlayers s) \<longrightarrow>
         connected_in c u (fst (sweep now s)) = connected_in c u s)
   \<and> (\<forall>d. distinct (map fst (disconnectedPlayers s)) \<and> map_of (disconnectedPlayers s) u = Some d
         \<and> list_all (\<lambda>e. \<not> disturbs u d e) es \<and> now - dr_timestamp d > 5 * 60 * 1000
         \<and> map_of (lobbies (run es s)) (dr_code d) \<noteq> None \<longrightarrow>
         map_of (disconnectedPlayers (run es s)) u = Some d
         \<and> absent_from (dr_code d) u (fst (sweep now (run es s))))"
proof (intro conjI allI impI)
  show "disconnectedPlayers (fst (api_join c u s)) = disconnectedPlayers s"
    by (rule handlers_records)
  show "disconnectedPlayers (fst (join_lobby c u s)) = disconnectedPlayers s"
    by (rule handlers_records)
  show "connected_in c u (fst (api_join c u s)) = Some True"
    if "truthy c \<and> truthy u \<and> connected_in c u s \<noteq> None"
    using that by (simp add: join_sets_connected)
  show "connected_in c u (fst (join_lobby c u s)) = Some True" if "connected_in c u s \<noteq> None"
    using that by (rule join_sets_connected)
  show "map_of (disconnectedPlayers (fst (handle e s))) u = map_of (disconnectedPlayers s) u"
    if "\<not> leaves_as u e \<and> \<not> is_sweep e"
    using that by (simp add: handle_keeps_record)
  show "map_of (disconnectedPlayers (fst (sweep now s))) u = Some d"
    if "distinct (map fst (disconnectedPlayers s)) \<and> map_of (disconnectedPlayers s) u = Some d
         \<and> now - dr_timestamp d \<le> 5 * 60 * 1000" for d
    using that by (simp add: sweep_keeps_record)
  show "absent_from (dr_code d) u (fst (sweep now s))"
    if "map_of (disconnectedPlayers s) u = Some d \<and> now - dr_timestamp d > 5 * 60 * 1000
         \<and> map_of (lobbies s) (dr_code d) \<noteq> None" for d
    using that by (intro sweep_removes) simp_all
  show "connected_in c u (fst (sweep now s)) = connected_in c u s"
    if "list_all (\<lambda>r. \<not> (fst r = u \<and> dr_code (snd r) = c
                         \<and> now - dr_timestamp (snd r) > 5 * 60 * 1000)) (disconnectedPlayers s)"
    using that by (rule sweep_keeps_participant)
  show "map_of (disconnectedPlayers (run es s)) u = Some d"
    and "absent_from (dr_code d) u (fst (sweep now (run es s)))"
    if h: "distinct (map fst (disconnectedPlayers s)) \<and> map_of (disconnectedPlayers s) u = Some d
         \<and> list_all (\<lambda>e. \<not> disturbs u d e) es \<and> now - dr_timestamp d > 5 * 60 * 1000
         \<and> map_of (lobbies (run es s)) (dr_code d) \<noteq> None" for d
  proof -
    show r: "map_of (disconnectedPlayers (run es s)) u = Some d"
      using h by (intro run_keeps_record) simp_all
    show "absent_from (dr_code d) u (fst (sweep now (run es s)))"
      using r h by (intro sweep_removes) simp_all
  qed
qed

theorem reconnection_keeps_the_record_witness:
  "map_of (disconnectedPlayers piet_away) ''piet'' =
     Some \<lparr>dr_code = ''ABC123'', dr_timestamp = 4000\<rparr>
   \<and> connected_in ''ABC123'' ''piet'' piet_away = Some False
   \<and> disconnectedPlayers (fst (api_join ''ABC123'' ''piet'' piet_away)) =
       disconnectedPlayers piet_away
   \<and> disconnectedPlayers (fst (join_lobby ''ABC123'' ''piet'' piet_away)) =
       disconnectedPlayers piet_away
   \<and> connected_in ''ABC123'' ''piet'' (fst (api_join ''ABC123'' ''piet'' piet_away)) = Some True
   \<and> connected_in ''ABC123'' ''piet'' (fst (join_lobby ''ABC123'' ''piet'' piet_away)) = Some True
   \<and> map_of (disconnectedPlayers
               (fst (handle (LeaveLobby 100000 ''XYZ789'' ''quin'') (run piet_rejoined init))))
         ''piet'' = Some \<lparr>dr_code = ''ABC123'', dr_timestamp = 4000\<rparr>
   \<and> map_of (disconnectedPlayers (fst (sweep 121500 (run piet_rejoined init)))) ''piet'' =
       Some \<lparr>dr_code = ''ABC123'', dr_timestamp = 4000\<rparr>
   \<and> connected_in ''ABC123'' ''piet'' piet_back = Some True
   \<and> absent_from ''ABC123'' ''piet'' (fst (sweep 361500 piet_back))
   \<and> connected_in ''ABC123'' ''piet'' (fst (sweep 121500 (run piet_rejoined init))) = Some True
   \<and> absent_from ''ABC123'' ''piet''
       (fst (sweep 361500
          (run [ApiJoin ''ABC123'' ''piet'', Sweep 61500, Sweep 121500, Sweep 181500,
                Sweep 241500, LoadImages [], Sweep 301500] piet_away)))"
proof -
  let ?es = "[ApiJoin ''ABC123'' ''piet'', Sweep 61500, Sweep 121500, Sweep 181500,
              Sweep 241500, LoadImages [], Sweep 301500]"
  let ?rec = "\<lparr>dr_code = ''ABC123'', dr_timestamp = 4000\<rparr>"
  note t = reconnection_keeps_the_record
  have a: "map_of (disconnectedPlayers piet_away) ''piet'' = Some ?rec"
    and b: "connected_in ''ABC123'' ''piet'' piet_away = Some False"
    by (simp_all add: piet_away_state connected_in_def find_participant_def)
  have r: "map_of (disconnectedPlayers (run piet_rejoined init)) ''piet'' = Some ?rec"
    and dr: "distinct (map fst (disconnectedPlayers (run piet_rejoined init)))"
    and cr: "connected_in ''ABC123'' ''piet'' (run piet_rejoined init) = Some True"
    and rr: "disconnectedPlayers (run piet_rejoined init) = [(''piet'', ?rec)]"
    by (simp_all add: piet_rejoined_state connected_in_def find_participant_def)
  have pb: "map_of (disconnectedPlayers piet_back) ''piet'' = Some ?rec"
    and lb: "map_of (lobbies piet_back) ''ABC123'' \<noteq> None"
    and cb: "connected_in ''ABC123'' ''piet'' piet_back = Some True"
    by (simp_all add: piet_back_state connected_in_def find_participant_def)
  have 1: "disconnectedPlayers (fst (api_join ''ABC123'' ''piet'' piet_away)) =
       disconnectedPlayers piet_away"
    by (rule t[THEN conjunct1])
  have 2: "disconnectedPlayers (fst (join_lobby ''ABC123'' ''piet'' piet_away)) =
       disconnectedPlayers piet_away"
    by (rule t[THEN conjunct2, THEN conjunct1])
  have 3: "connected_in ''ABC123'' ''piet'' (fst (api_join ''ABC123'' ''piet'' piet_away)) = Some True"
    using t[where c = "''ABC123''" and u = "''piet''" and s = piet_away,
        THEN conjunct2, THEN conjunct2, THEN conjunct1] b
    by (simp add: truthy_def)
  have 4: "connected_in ''ABC123'' ''piet'' (fst (join_lobby ''ABC123'' ''piet'' piet_away)) = Some True"
    using t[where c = "''ABC123''" and u = "''piet''" and s = piet_away,
        THEN conjunct2, THEN conjunct2, THEN conjunct2, THEN conjunct1] b
    by simp
  have 5: "map_of (disconnectedPlayers
               (fst (handle (LeaveLobby 100000 ''XYZ789'' ''quin'') (run piet_rejoined init))))
         ''piet'' = Some ?rec"
    using t[where u = "''piet''" and e = "LeaveLobby 100000 ''XYZ789'' ''quin''"
        and s = "run piet_rejoined init",
        THEN conjunct2, THEN conjunct2, THEN conjunct2, THEN conjunct2, THEN conjunct1] r
    by (simp add: leaves_as_def is_sweep_def)
  have 6: "map_of (disconnectedPlayers (fst (sweep 121500 (run piet_rejoined init)))) ''piet'' =
       Some ?rec"
    using t[where u = "''piet''" and s = "run piet_rejoined init" and now = 121500,
        THEN conjunct2, THEN conjunct2, THEN conjunct2, THEN conjunct2, THEN conjunct2,
        THEN conjunct1, rule_format, of ?rec] r dr
    by simp
  have 7: "absent_from ''ABC123'' ''piet'' (fst (sweep 361500 piet_back))"
    using t[where u = "''piet''" and s = piet_back and now = 361500,
        THEN conjunct2, THEN conjunct2, THEN conjunct2, THEN conjunct2, THEN conjunct2,
        THEN conjunct2, THEN conjunct1, rule_format, of ?rec] pb lb
    by simp
  have 8: "connected_in ''ABC123'' ''piet'' (fst (sweep 121500 (run piet_rejoined init))) = Some True"
    using t[where u = "''piet''" and c = "''ABC123''" and s = "run piet_rejoined init"
        and now = 121500,
        THEN conjunct2, THEN conjunct2, THEN conjunct2, THEN conjunct2, THEN conjunct2,
        THEN conjunct2, THEN conjunct2, THEN conjunct1] cr
    by (simp add: rr)
  have es: "run ?es piet_away = piet_back"
    by (simp add: piet_back_def piet_rejoined_def piet_away_def run_append[symmetric])
  have da: "distinct (map fst (disconnectedPlayers piet_away))"
    by (simp add: piet_away_state)
  have nd: "list_all (\<lambda>e. \<not> disturbs ''piet'' ?rec e) ?es"
    by (simp add: disturbs_def)
  have l9: "map_of (lobbies (run ?es piet_away)) (dr_code ?rec) \<noteq> None"
    unfolding es using lb by simp
  have x9: "361500 - dr_timestamp ?rec > 5 * 60 * 1000" by simp
  have h9: "distinct (map fst (disconnectedPlayers piet_away))
      \<and> map_of (disconnectedPlayers piet_away) ''piet'' = Some ?rec
      \<and> list_all (\<lambda>e. \<not> disturbs ''piet'' ?rec e) ?es \<and> 361500 - dr_timestamp ?rec > 5 * 60 * 1000
      \<and> map_of (lobbies (run ?es piet_away)) (dr_code ?rec) \<noteq> None"
    using da a nd x9 l9 by (intro conjI)
  have "absent_from (dr_code ?rec) ''piet'' (fst (sweep 361500 (run ?es piet_away)))"
    by (rule t[where u = "''piet''" and s = piet_away and now = 361500 and es = ?es,
        THEN conjunct2, THEN conjunct2, THEN conjunct2, THEN conjunct2, THEN conjunct2,
        THEN conjunct2, THEN conjunct2, THEN conjunct2, rule_format, OF h9, THEN conjunct2])
  then have 9: "absent_from ''ABC123'' ''piet'' (fst (sweep 361500 (run ?es piet_away)))"
    by (simp only: disconnect_record.simps)
  show ?thesis using a b 1 2 3 4 5 6 7 8 cb by (intro conjI 9) simp_all
qed

text \<open>
  Claim C10, as stated, fails. The piet of lobby ABC123 left during the game at 4 s,
  which put his departure on record, and joined again a second later. At 100 s the piet
  of lobby XYZ789 left his game: the record of the name now holds XYZ789 and 100 s. The
  sweep at 361.5 s, more than five minutes after the departure at 4 s, removes nobody,
  and the sweep a minute later removes the piet of XYZ789 and deletes the record: the
  piet of ABC123 stays in the roster.
\<close>

theorem namesake_overwrites_the_record:
  "map_of (disconnectedPlayers piet_away) ''piet'' =
     Some \<lparr>dr_code = ''ABC123'', dr_timestamp = 4000\<rparr>
   \<and> connected_in ''ABC123'' ''piet'' piet_away = Some False
   \<and> connected_in ''ABC123'' ''piet'' namesake_left = Some True
   \<and> map_of (disconnectedPlayers namesake_left) ''piet'' =
       Some \<lparr>dr_code = ''XYZ789'', dr_timestamp = 100000\<rparr>
   \<and> (361500 :: int) - 4000 > 5 * 60 * 1000
   \<and> \<not> absent_from ''ABC123'' ''piet'' (fst (sweep 361500 namesake_left))
   \<and> connected_in ''ABC123'' ''piet'' (fst (sweep 361500 namesake_left)) = Some True
   \<and> connected_in ''ABC123'' ''piet'' (run [Sweep 361500, Sweep 421500] namesake_left) = Some True
   \<and> absent_from ''XYZ789'' ''piet'' (run [Sweep 361500, Sweep 421500] namesake_left)
   \<and> disconnectedPlayers (run [Sweep 361500, Sweep 421500] namesake_left) = []"
  unfolding namesake_left_state piet_away_state by code_simp

section \<open>Scores\<close>














text \<open>The points of a round depend on the scores, the votes and the images only.\<close>

lemma award_points_cong:
  assumes "scores g1 = scores g" and "votes g1 = votes g" and "currentImages g1 = currentImages g"
  shows "award_points l g1 = award_points l g"
proof -
  have cp: "count_participant g1 = count_participant g"
    by (intro ext) (simp add: count_participant_def assms)
  then have ty: "tally l g1 = tally l g" by (simp add: tally_def)
  then have mc: "majority_choices l g1 = majority_choices l g"
    by (simp add: majority_choices_def assms)
  have aw: "award g1 = award g"
    by (intro ext) (simp add: award_def assms)
  show ?thesis by (simp add: award_points_def ty mc aw assms)
qed







lemma kept_awarded: "scores_kept s s' \<Longrightarrow> scores_kept_or_awarded s s'"
  unfolding scores_kept_def scores_kept_or_awarded_def by blast












text \<open>
  \<open>calculateResults\<close> after a step that left the registries, the scores, the votes and
  the images alone.
\<close>

lemma calculateResults_awarded:
  assumes gs: "gameStates s1 = gameStates s" and lb: "lobbies s1 = lobbies s"
    and ob: "\<And>r g. map_of (objects s) r = Some g \<Longrightarrow>
               \<exists>g1. map_of (objects s1) r = Some g1 \<and> scores g1 = scores g
                  \<and> votes g1 = votes g \<and> currentImages g1 = currentImages g"
  shows "scores_kept_or_awarded s (fst (calculateResults c s1))"
proof -
  have k: "scores_kept s s1" using ob unfolding scores_kept_def by blast
  show ?thesis
  proof (cases "get_game s1 c")
    case None
    then show ?thesis using k by (simp add: calculateResults_def kept_awarded)
  next
    case (Some a)
    then obtain rc gc where a: "get_game s1 c = Some (rc, gc)" by (cases a) auto
    show ?thesis
    proof (cases "map_of (lobbies s1) c")
      case None
      then show ?thesis using a k by (simp add: calculateResults_def kept_awarded)
    next
      case l: (Some l)
      let ?g' = "gc\<lparr>scores := fst (award_points l gc), phase := ''results''\<rparr>"
      have res: "objects (fst (calculateResults c s1)) = AList.update rc ?g' (objects s1)"
        using a l by (cases "award_points l gc") (simp add: calculateResults_def fields)
      have ref: "map_of (gameStates s) c = Some rc" using get_game_ref[OF a] gs by simp
      have obj: "map_of (objects s1) rc = Some gc" using get_game_obj[OF a] .
      show ?thesis unfolding scores_kept_or_awarded_def
      proof (intro allI impI)
        fix r g assume g: "map_of (objects s) r = Some g"
        from ob[OF g] obtain g1 where g1: "map_of (objects s1) r = Some g1"
          "scores g1 = scores g" "votes g1 = votes g" "currentImages g1 = currentImages g"
          by blast
        show "\<exists>g'. map_of (objects (fst (calculateResults c s1))) r = Some g'
                \<and> (scores g' = scores g
                   \<or> (\<exists>c l. map_of (gameStates s) c = Some r \<and> map_of (lobbies s) c = Some l
                         \<and> scores g' = fst (award_points l g)))"
        proof (cases "r = rc")
          case False
          then show ?thesis using g1 by (simp add: res update_conv')
        next
          case True
          then have "g1 = gc" using g1(1) obj by simp
          then have "award_points l gc = award_points l g"
            using g1 by (intro award_points_cong) simp_all
          then have "map_of (objects (fst (calculateResults c s1))) r = Some ?g'
                \<and> map_of (gameStates s) c = Some r \<and> map_of (lobbies s) c = Some l
                \<and> scores ?g' = fst (award_points l g)"
            using True ref l lb by (simp add: res update_conv')
          then show ?thesis by blast
        qed
      qed
    qed
  qed
qed

lemma calculateResults_step: "scores_kept_or_awarded s (fst (calculateResults c s))"
  by (rule calculateResults_awarded) simp_all









section \<open>The host and the roster\<close>

lemma sweep_entry_host:
  "map_option host (map_of (lobbies (fst (sweep_entry now e acc))) c) =
     map_option host (map_of (lobbies (fst acc)) c)"
  by (auto simp: sweep_entry_def Let_def fields update_conv' split: option.splits)

lemma sweep_host:
  "map_option host (map_of (lobbies (fst (sweep now s))) c) = map_option host (map_of (lobbies s) c)"
proof -
  have "map_option host (map_of (lobbies (fst (fold (sweep_entry now) es acc))) c) =
          map_option host (map_of (lobbies (fst acc)) c)" for es acc
    by (induction es arbitrary: acc) (simp_all add: sweep_entry_host)
  then show ?thesis by (simp add: sweep_def)
qed

lemma host_left_state:
  "host_left =
     \<lparr>lobbies =
        [(''ABC123'',
          \<lparr>code = ''ABC123'', host = ''hana'',
           participants = [\<lparr>username = ''hana'', isHost = True, connected = False\<rparr>,
                           \<lparr>username = ''piet'', isHost = False, connected = True\<rparr>],
           createdAt = 0, gameStarted = True\<rparr>)],
      gameStates = [(''ABC123'', 0)],
      objects =
        [(0, \<lparr>phase = ''discussion'', roundNumber = 1, totalRounds = 30,
              currentImages = [''/images/a.png'', ''/images/b.png'', ''/images/c.png''],
              votes = [], scores = [(''hana'', Number 0), (''piet'', Number 0)], timer = 60,
              timerInterval = Some 2\<rparr>)],
      disconnectedPlayers = [(''hana'', \<lparr>dr_code = ''ABC123'', dr_timestamp = 2500\<rparr>)],
      gameImages = [''/images/a.png'', ''/images/b.png'', ''/images/c.png''],
      intervals = [(2, \<lparr>iv_code = ''ABC123'', iv_game = 0, iv_then = ToVoting\<rparr>)],
      timeouts = [], nextRef = 3\<rparr>"
  by code_simp

text \<open>
  Claim C2 and the code. Hana creates a lobby, piet joins, hana starts the game and
  leaves it half a second into the first discussion: the game is under way, so she is
  marked disconnected and her departure is recorded. Whatever the timers of the game do
  in the five minutes that follow, the cleanup sweep then removes her from the roster
  and keeps the lobby, whose host she still is: the lobby exists, and its host is not
  among its participants. The handlers of leave-lobby and disconnect delete the lobby
  when they remove the host; the sweep has no such check.
\<close>

theorem sweep_removes_host_and_keeps_lobby:
  assumes "list_all is_timer_event es"
  shows "map_option host (map_of (lobbies (fst (sweep 303000 (run es host_left)))) ''ABC123'') =
           Some ''hana''
       \<and> absent_from ''ABC123'' ''hana'' (fst (sweep 303000 (run es host_left)))"
proof -
  have "lobbies host_left =
          [(''ABC123'',
            \<lparr>code = ''ABC123'', host = ''hana'',
             participants = [\<lparr>username = ''hana'', isHost = True, connected = False\<rparr>,
                             \<lparr>username = ''piet'', isHost = False, connected = True\<rparr>],
             createdAt = 0, gameStarted = True\<rparr>)]"
    and "disconnectedPlayers host_left =
          [(''hana'', \<lparr>dr_code = ''ABC123'', dr_timestamp = 2500\<rparr>)]"
    by (simp_all add: host_left_state)
  with timer_events_roster[OF assms, of host_left]
  have l: "lobbies (run es host_left) =
          [(''ABC123'',
            \<lparr>code = ''ABC123'', host = ''hana'',
             participants = [\<lparr>username = ''hana'', isHost = True, connected = False\<rparr>,
                             \<lparr>username = ''piet'', isHost = False, connected = True\<rparr>],
             createdAt = 0, gameStarted = True\<rparr>)]"
    and d: "disconnectedPlayers (run es host_left) =
          [(''hana'', \<lparr>dr_code = ''ABC123'', dr_timestamp = 2500\<rparr>)]"
    by simp_all
  have "map_option host (map_of (lobbies (fst (sweep 303000 (run es host_left)))) ''ABC123'') =
          Some ''hana''"
    by (simp add: sweep_host l)
  moreover have "absent_from (dr_code \<lparr>dr_code = ''ABC123'', dr_timestamp = 2500\<rparr>) ''hana''
                   (fst (sweep 303000 (run es host_left)))"
    by (rule sweep_removes) (simp_all add: l d)
  ultimately show ?thesis by simp
qed

theorem sweep_removes_host_and_keeps_lobby_witness:
  "list_all is_timer_event [Tick 2, Tick 2]
   \<and> map_option host
       (map_of (lobbies (fst (sweep 303000 (run [Tick 2, Tick 2] host_left)))) ''ABC123'') =
       Some ''hana''
   \<and> absent_from ''ABC123'' ''hana'' (fst (sweep 303000 (run [Tick 2, Tick 2] host_left)))"
  using sweep_removes_host_and_keeps_lobby[of "[Tick 2, Tick 2]"]
  by (simp add: is_timer_event_def)

section \<open>One countdown per game\<close>

text \<open>
  Claim C3 and the code. \<open>startTimer\<close> and restart-game clear the interval of the game
  state before a new one is installed; start-game does not. It builds a new game state
  and overwrites the registry entry, whatever was registered, so the interval of the
  game state it replaced goes on ticking. Here hana sends start-game a second time, half
  a second into the first discussion: once the second discussion has begun, two
  countdowns are live for the lobby, timer 2 of the old game state and timer 5 of the
  new one, and both broadcast \<open>game-timer\<close> to the room.
\<close>

theorem start_game_keeps_old_timer:
  "live_timers started_twice ''ABC123'' = [2, 5]
   \<and> map_of (gameStates started_twice) ''ABC123'' = Some 3
   \<and> map_option iv_game (map_of (intervals started_twice) 2) = Some 0
   \<and> map_option iv_game (map_of (intervals started_twice) 5) = Some 3
   \<and> snd (handle (Tick 2) started_twice) = [GameTimer ''ABC123'' 57]
   \<and> snd (handle (Tick 5) started_twice) = [GameTimer ''ABC123'' 59]"
  by code_simp

section \<open>Teardown and the callbacks that are still due\<close>

lemma torn_down_state:
  "torn_down =
     \<lparr>lobbies = [], gameStates = [],
      objects =
        [(0, \<lparr>phase = ''waiting'', roundNumber = 2, totalRounds = 30,
              currentImages = [''/images/a.png'', ''/images/b.png'', ''/images/c.png''],
              votes = [], scores = [(''hana'', Number 0), (''piet'', Number 0)], timer = 53,
              timerInterval = Some 6\<rparr>)],
      disconnectedPlayers = [],
      gameImages = [''/images/a.png'', ''/images/b.png'', ''/images/c.png''],
      intervals = [(6, \<lparr>iv_code = ''ABC123'', iv_game = 0, iv_then = ToVoting\<rparr>)],
      timeouts = [(8, \<lparr>dl_delay = 3000, dl_callback = StartDiscussionPhase ''ABC123''\<rparr>)],
      nextRef = 9\<rparr>"
proof -
  have "torn_down = run [LeaveLobby 102200 ''ABC123'' ''hana''] before_teardown"
    by (simp add: torn_down_def before_teardown_def run_append)
  then show ?thesis unfolding before_teardown_state by code_simp
qed

text \<open>
  Claim C4 and the code. The handler of leave-lobby deletes the lobby and the game state
  and clears no interval (the handler of disconnect clears it first), and the callback
  of \<open>startTimer\<close> decrements and broadcasts before anything looks the session up.
  Here hana restarted the game during the results of the first round, so the countdown
  of the new discussion (timer 6) was live when the old round set the phase to
  \<open>waiting\<close>, and in that phase hana left, which closed the lobby. The session is gone
  from both registries and timer 6 is still live; its next tick writes to the game state
  that was deleted and broadcasts \<open>game-timer\<close> to the closed lobby. The timeout that is
  still due (8) looks the session up and does nothing.
\<close>

theorem tick_after_teardown:
  "map_of (lobbies torn_down) ''ABC123'' = None
   \<and> map_of (gameStates torn_down) ''ABC123'' = None
   \<and> live_timers torn_down ''ABC123'' = [6]
   \<and> snd (handle (Tick 6) torn_down) = [GameTimer ''ABC123'' 52]
   \<and> map_option timer (map_of (objects torn_down) 0) = Some 53
   \<and> map_option timer (map_of (objects (fst (handle (Tick 6) torn_down))) 0) = Some 52
   \<and> handle (Fire 8 (0, 0, 0)) torn_down = (torn_down\<lparr>timeouts := []\<rparr>, [])"
  unfolding torn_down_state by code_simp

end
